theory Spec2Isabelle
  imports Main
begin

section \<open>Workflow engine of cybersage: data model\<close>

text \<open>
  The development embeds \<^verbatim>\<open>core-services/workflow-engine-svc/workflow_engine.py\<close>.
  The engine is asynchronous Python. In the first embedding a run is sequential: every
  \<^verbatim>\<open>await\<close> of a collaborator (tool, audit sink, context store, cleanup hook, sleep) is
  a call whose outcome is read from the environment and whose occurrence is appended to
  a trace. A second embedding, further down, makes the suspension points explicit.
  Exceptions are values of type \<open>exn\<close>; only subclasses of \<^verbatim>\<open>Exception\<close> are modelled
  (task cancellation by the event loop is outside the model).
\<close>

datatype workflow_status = PENDING | RUNNING | COMPLETED | FAILED | CANCELLED | PAUSED

datatype step_status =
  STEP_PENDING | STEP_RUNNING | STEP_COMPLETED | STEP_FAILED | STEP_SKIPPED

datatype security_level = LOW | MEDIUM | HIGH | CRITICAL

fun security_level_value :: "security_level \<Rightarrow> string" where
  "security_level_value LOW = ''low''"
| "security_level_value MEDIUM = ''medium''"
| "security_level_value HIGH = ''high''"
| "security_level_value CRITICAL = ''critical''"

text \<open>Exceptions: the class decides which \<^verbatim>\<open>except\<close> clause catches, the string is \<^verbatim>\<open>str(e)\<close>.\<close>

datatype exn =
  TimeoutError string
| WorkflowError string
| ContextError string
| LoggingError string
| IndexError string
| TypeError string
| OtherError string

fun str_exn :: "exn \<Rightarrow> string" where
  "str_exn (TimeoutError m) = m"
| "str_exn (WorkflowError m) = m"
| "str_exn (ContextError m) = m"
| "str_exn (LoggingError m) = m"
| "str_exn (IndexError m) = m"
| "str_exn (TypeError m) = m"
| "str_exn (OtherError m) = m"

fun is_timeout :: "exn \<Rightarrow> bool" where
  "is_timeout (TimeoutError m) = True"
| "is_timeout e = False"

text \<open>A \<^verbatim>\<open>Dict[str, Any]\<close> of parameters or of tool output, kept as an association list.\<close>

type_synonym dict = "(string \<times> string) list"

datatype detail = DStr string | DInt int | DNone | DDict dict

subsection \<open>Decimal rendering of integers inside f-strings\<close>

definition digit_char :: "nat \<Rightarrow> char" where
  "digit_char d = ''0123456789'' ! d"

function str_nat :: "nat \<Rightarrow> string" where
  "str_nat n = (if n < 10 then [digit_char n] else str_nat (n div 10) @ [digit_char (n mod 10)])"
  by pat_completeness auto
termination
  by (relation "measure id") auto

declare str_nat.simps [simp del]

definition str_int :: "int \<Rightarrow> string" where
  "str_int i = (if i < 0 then CHR ''-'' # str_nat (nat (- i)) else str_nat (nat i))"

fun str_opt :: "string option \<Rightarrow> string" where
  "str_opt None = ''None''"
| "str_opt (Some m) = m"

fun detail_opt :: "string option \<Rightarrow> detail" where
  "detail_opt None = DNone"
| "detail_opt (Some m) = DStr m"

subsection \<open>Steps and workflows\<close>

text \<open>
  \<open>tool\<close> is \<^verbatim>\<open>step.tool.execute\<close> under \<^verbatim>\<open>asyncio.wait_for\<close>: given the parameters and
  the number of tool invocations made so far, it returns a result or raises; exceeding
  the timeout is \<open>Inl (TimeoutError m)\<close>. A condition is a zero-argument callable: it
  returns a truth value or raises. \<open>cleanup\<close> is absent, or returns, or raises.
\<close>

record step =
  name :: string
  tool :: "dict \<Rightarrow> nat \<Rightarrow> exn + dict"
  params :: dict
  conditions :: "(exn + bool) list"
  retry_count :: int
  timeout :: int
  cleanup :: "(exn + unit) option"
  status :: step_status
  result :: "dict option"
  error :: "string option"
  start_time :: "nat option"
  end_time :: "nat option"

record workflow =
  workflow_id :: string
  wf_name :: string
  description :: string
  steps :: "step list"
  wf_security_level :: security_level
  wf_status :: workflow_status
  current_step :: nat
  wf_start_time :: "nat option"
  wf_end_time :: "nat option"
  results :: "string \<rightharpoonup> dict"

text \<open>\<^verbatim>\<open>WorkflowStep.__init__\<close> and \<^verbatim>\<open>SecurityWorkflow.__init__\<close>.\<close>

definition new_step ::
  "string \<Rightarrow> (dict \<Rightarrow> nat \<Rightarrow> exn + dict) \<Rightarrow> dict \<Rightarrow> (exn + bool) list \<Rightarrow> int \<Rightarrow> int
     \<Rightarrow> (exn + unit) option \<Rightarrow> step" where
  "new_step n t p cs rc tmo cl =
     \<lparr>name = n, tool = t, params = p, conditions = cs, retry_count = rc, timeout = tmo,
      cleanup = cl, status = STEP_PENDING, result = None, error = None,
      start_time = None, end_time = None\<rparr>"

definition new_workflow ::
  "string \<Rightarrow> string \<Rightarrow> string \<Rightarrow> step list \<Rightarrow> security_level \<Rightarrow> workflow" where
  "new_workflow wid n d ss lvl =
     \<lparr>workflow_id = wid, wf_name = n, description = d, steps = ss, wf_security_level = lvl,
      wf_status = PENDING, current_step = 0, wf_start_time = None, wf_end_time = None,
      results = Map.empty\<rparr>"

subsection \<open>The world outside the engine\<close>

text \<open>
  The trace lists, oldest first, every call the engine makes to a collaborator, every
  \<^verbatim>\<open>logger.error\<close> line, and every assignment to a step's \<^verbatim>\<open>status\<close> (with the value it
  replaces). \<open>clock\<close> is what \<^verbatim>\<open>datetime.utcnow()\<close> returns.
\<close>

datatype event =
  AuditEvent string string "(string \<times> detail) list"
| ToolExecute string dict
| Sleep nat
| CreateContext string security_level
| UpdateContext string string dict
| Cleanup string
| LoggerError string
| StatusChange string step_status step_status

record world =
  trace :: "event list"
  clock :: nat

text \<open>
  The collaborators' behaviour: the n-th call of each operation either succeeds
  (\<open>None\<close>) or fails inside with the given message. \<^verbatim>\<open>LoggingService.log_audit_event\<close>,
  \<^verbatim>\<open>ContextManager.create_context\<close> and \<^verbatim>\<open>ContextManager.update_context\<close> wrap every
  inner failure in their own exception class with a fixed prefix.
\<close>

record env =
  audit_fails :: "nat \<Rightarrow> string option"
  create_fails :: "nat \<Rightarrow> string option"
  update_fails :: "nat \<Rightarrow> string option"

fun is_audit :: "event \<Rightarrow> bool" where
  "is_audit (AuditEvent s a d) = True"
| "is_audit e = False"

fun is_tool :: "event \<Rightarrow> bool" where
  "is_tool (ToolExecute n p) = True"
| "is_tool e = False"

fun is_sleep :: "event \<Rightarrow> bool" where
  "is_sleep (Sleep d) = True"
| "is_sleep e = False"

fun is_create :: "event \<Rightarrow> bool" where
  "is_create (CreateContext s l) = True"
| "is_create e = False"

fun is_update :: "event \<Rightarrow> bool" where
  "is_update (UpdateContext s k v) = True"
| "is_update e = False"

definition audit_calls :: "event list \<Rightarrow> nat" where
  "audit_calls tr = length (filter is_audit tr)"

definition tool_calls :: "event list \<Rightarrow> nat" where
  "tool_calls tr = length (filter is_tool tr)"

definition emit :: "event \<Rightarrow> world \<Rightarrow> world" where
  "emit e w = w\<lparr>trace := trace w @ [e]\<rparr>"

definition log_audit_event ::
  "env \<Rightarrow> string \<Rightarrow> string \<Rightarrow> (string \<times> detail) list \<Rightarrow> world \<Rightarrow> (exn + unit) \<times> world" where
  "log_audit_event env session_id action details w =
     (case audit_fails env (audit_calls (trace w)) of
        None \<Rightarrow> (Inr (), emit (AuditEvent session_id action details) w)
      | Some m \<Rightarrow>
          (Inl (LoggingError (''Failed to log audit event: '' @ m)),
           emit (AuditEvent session_id action details) w))"

definition create_context ::
  "env \<Rightarrow> string \<Rightarrow> security_level \<Rightarrow> world \<Rightarrow> (exn + unit) \<times> world" where
  "create_context env session_id lvl w =
     (case create_fails env (length (filter is_create (trace w))) of
        None \<Rightarrow> (Inr (), emit (CreateContext session_id lvl) w)
      | Some m \<Rightarrow>
          (Inl (ContextError (''Context creation failed: '' @ m)),
           emit (CreateContext session_id lvl) w))"

definition update_context ::
  "env \<Rightarrow> string \<Rightarrow> string \<Rightarrow> dict \<Rightarrow> world \<Rightarrow> (exn + unit) \<times> world" where
  "update_context env session_id k v w =
     (case update_fails env (length (filter is_update (trace w))) of
        None \<Rightarrow> (Inr (), emit (UpdateContext session_id k v) w)
      | Some m \<Rightarrow>
          (Inl (ContextError (''Context update failed: '' @ m)),
           emit (UpdateContext session_id k v) w))"

text \<open>\<^verbatim>\<open>asyncio.sleep(d)\<close>: time passes.\<close>

definition sleep :: "nat \<Rightarrow> world \<Rightarrow> world" where
  "sleep d w = (emit (Sleep d) w)\<lparr>clock := clock w + d\<rparr>"

text \<open>
  The guarded cleanup call of the failure and cancellation paths:
  \<^verbatim>\<open>if step.cleanup: try: await step.cleanup() except Exception: logger.error(...)\<close>.
\<close>

definition run_cleanup :: "string \<Rightarrow> step \<Rightarrow> world \<Rightarrow> world" where
  "run_cleanup logline st w =
     (case cleanup st of
        None \<Rightarrow> w
      | Some (Inr u) \<Rightarrow> emit (Cleanup (name st)) w
      | Some (Inl e) \<Rightarrow>
          emit (LoggerError (logline @ str_exn e)) (emit (Cleanup (name st)) w))"

section \<open>The retry executor: \<^verbatim>\<open>_execute_step\<close>\<close>

text \<open>
  The message of the \<^verbatim>\<open>TypeError\<close> that \<^verbatim>\<open>step.end_time - step.start_time\<close> raises when
  no start time was recorded (Python quotes the two type names).
\<close>

definition none_duration_msg :: string where
  "none_duration_msg = ''unsupported operand type(s) for -: datetime.datetime and NoneType''"

text \<open>
  One pass through the \<^verbatim>\<open>try\<close> block of the retry loop. \<open>Inr res\<close>: the block returned
  \<open>res\<close>. \<open>Inl m\<close>: an exception was caught and \<open>m\<close> is the new \<^verbatim>\<open>last_error\<close>. The
  block's \<^verbatim>\<open>except\<close> clauses also cover the status update and the \<^verbatim>\<open>step_completed\<close>
  audit call that follow the tool call.
\<close>

definition attempt :: "env \<Rightarrow> string \<Rightarrow> step \<Rightarrow> world \<Rightarrow> (string + dict) \<times> step \<times> world" where
  "attempt env wid st w =
     (let w1 = emit (ToolExecute (name st) (params st)) w in
      case tool st (params st) (tool_calls (trace w)) of
        Inl e \<Rightarrow>
          (Inl (if is_timeout e
                then ''Step timed out after '' @ str_int (timeout st) @ '' seconds''
                else str_exn e), st, w1)
      | Inr res \<Rightarrow>
          (let st1 = st\<lparr>status := STEP_COMPLETED, end_time := Some (clock w1),
                        result := Some res\<rparr>;
               w2 = emit (StatusChange (name st) (status st) STEP_COMPLETED) w1
           in case start_time st1 of
                None \<Rightarrow>
                  (Inl none_duration_msg, st1, w2)
              | Some t0 \<Rightarrow>
                  (case log_audit_event env wid ''step_completed''
                          [(''step_name'', DStr (name st1)),
                           (''duration'', DInt (int (clock w1) - int t0))] w2 of
                     (Inr u, w3) \<Rightarrow> (Inr res, st1, w3)
                   | (Inl e, w3) \<Rightarrow> (Inl (str_exn e), st1, w3))))"

text \<open>\<^verbatim>\<open>tries += 1; if tries < step.retry_count: await asyncio.sleep(2 ** tries)\<close>.\<close>

definition backoff :: "step \<Rightarrow> nat \<Rightarrow> world \<Rightarrow> world" where
  "backoff st tries w = (if int tries < retry_count st then sleep (2 ^ tries) w else w)"

text \<open>The code after the loop: all attempts are used up.\<close>

definition exhausted ::
  "env \<Rightarrow> string \<Rightarrow> step \<Rightarrow> nat \<Rightarrow> string option \<Rightarrow> world \<Rightarrow> (exn + dict) \<times> step \<times> world" where
  "exhausted env wid st tries last_error w =
     (let st1 = st\<lparr>status := STEP_FAILED, end_time := Some (clock w), error := last_error\<rparr>;
          w1 = emit (StatusChange (name st) (status st) STEP_FAILED) w
      in case log_audit_event env wid ''step_failed''
                [(''step_name'', DStr (name st1)), (''error'', detail_opt last_error),
                 (''retries'', DInt (int tries))] w1 of
           (Inl e, w2) \<Rightarrow> (Inl e, st1, w2)
         | (Inr u, w2) \<Rightarrow>
             (Inl (WorkflowError (''Step '' @ name st1 @ '' failed after '' @ str_nat tries
                                  @ '' attempts: '' @ str_opt last_error)), st1, w2))"

function retry_loop ::
  "env \<Rightarrow> string \<Rightarrow> step \<Rightarrow> nat \<Rightarrow> string option \<Rightarrow> world \<Rightarrow> (exn + dict) \<times> step \<times> world" where
  "retry_loop env wid st tries last_error w =
     (if int tries < retry_count st then
        (case attempt env wid st w of
           (Inr res, st1, w1) \<Rightarrow> (Inr res, st1, w1)
         | (Inl m, st1, w1) \<Rightarrow>
             retry_loop env wid st1 (Suc tries) (Some m) (backoff st1 (Suc tries) w1))
      else exhausted env wid st tries last_error w)"
  by pat_completeness auto
termination
  apply (relation "measure (\<lambda>(env, wid, st, tries, last_error, w). nat (retry_count st - int tries))")
   apply simp
  apply (auto simp: attempt_def Let_def split: sum.splits option.splits prod.splits)
  done

declare retry_loop.simps [simp del]

definition execute_step ::
  "env \<Rightarrow> string \<Rightarrow> step \<Rightarrow> world \<Rightarrow> (exn + dict) \<times> step \<times> world" where
  "execute_step env wid st w =
     (let st1 = st\<lparr>start_time := Some (clock w), status := STEP_RUNNING\<rparr>;
          w1 = emit (StatusChange (name st) (status st) STEP_RUNNING) w
      in case log_audit_event env wid ''step_started''
                [(''step_name'', DStr (name st1)), (''params'', DDict (params st1))] w1 of
           (Inl e, w2) \<Rightarrow> (Inl e, st1, w2)
         | (Inr u, w2) \<Rightarrow> retry_loop env wid st1 0 None w2)"

section \<open>The orchestrator: \<^verbatim>\<open>SecurityWorkflow.execute\<close>\<close>

text \<open>
  \<^verbatim>\<open>all(cond() for cond in step.conditions)\<close>: the predicates are called in order, the
  first false one ends the evaluation, and a predicate that raises ends it with the
  exception.
\<close>

fun all_conditions :: "(exn + bool) list \<Rightarrow> exn + bool" where
  "all_conditions [] = Inr True"
| "all_conditions (Inl e # cs) = Inl e"
| "all_conditions (Inr b # cs) = (if b then all_conditions cs else Inr False)"

text \<open>
  The \<^verbatim>\<open>except Exception as e\<close> branch inside the loop, for the step at index \<open>i\<close>:
  the step is marked failed with \<^verbatim>\<open>str(e)\<close>, its cleanup runs, and a
  \<^verbatim>\<open>WorkflowError\<close> is raised.
\<close>

definition handle_step_failure :: "nat \<Rightarrow> exn \<Rightarrow> workflow \<Rightarrow> world \<Rightarrow> exn \<times> workflow \<times> world" where
  "handle_step_failure i e wfl w =
     (let st = steps wfl ! i;
          w1 = emit (LoggerError (''Step '' @ name st @ '' failed: '' @ str_exn e)) w;
          st1 = st\<lparr>status := STEP_FAILED, error := Some (str_exn e)\<rparr>;
          w2 = emit (StatusChange (name st) (status st) STEP_FAILED) w1;
          w3 = run_cleanup (''Cleanup for step '' @ name st @ '' failed: '') st1 w2
      in (WorkflowError (''Workflow failed at step '' @ name st @ '': '' @ str_exn e),
          wfl\<lparr>steps := (steps wfl)[i := st1]\<rparr>, w3))"

text \<open>
  One iteration of \<^verbatim>\<open>for i, step in enumerate(self.steps)\<close>; \<open>i\<close> is below the length
  of the list. \<open>None\<close>: the loop goes on. \<open>Some e\<close>: the iteration raised \<open>e\<close>.
\<close>

definition run_step :: "env \<Rightarrow> nat \<Rightarrow> workflow \<Rightarrow> world \<Rightarrow> exn option \<times> workflow \<times> world" where
  "run_step env i wf0 w =
     (let wfl = wf0\<lparr>current_step := i\<rparr>; st = steps wfl ! i in
      case all_conditions (conditions st) of
        Inl e \<Rightarrow>
          (case handle_step_failure i e wfl w of (e', wfl', w') \<Rightarrow> (Some e', wfl', w'))
      | Inr False \<Rightarrow>
          (None, wfl\<lparr>steps := (steps wfl)[i := st\<lparr>status := STEP_SKIPPED\<rparr>]\<rparr>,
           emit (StatusChange (name st) (status st) STEP_SKIPPED) w)
      | Inr True \<Rightarrow>
          (case execute_step env (workflow_id wfl) st w of
             (Inl e, st1, w1) \<Rightarrow>
               (case handle_step_failure i e (wfl\<lparr>steps := (steps wfl)[i := st1]\<rparr>) w1 of
                  (e', wfl', w') \<Rightarrow> (Some e', wfl', w'))
           | (Inr res, st1, w1) \<Rightarrow>
               (let wf1 = wfl\<lparr>steps := (steps wfl)[i := st1],
                              results := (results wfl)(name st1 \<mapsto> res)\<rparr>
                in case update_context env (workflow_id wfl)
                          (''step_'' @ str_nat i @ ''_result'') res w1 of
                     (Inl e, w2) \<Rightarrow>
                       (case handle_step_failure i e wf1 w2 of
                          (e', wfl', w') \<Rightarrow> (Some e', wfl', w'))
                   | (Inr u, w2) \<Rightarrow> (None, wf1, w2))))"

fun run_steps :: "env \<Rightarrow> nat list \<Rightarrow> workflow \<Rightarrow> world \<Rightarrow> exn option \<times> workflow \<times> world" where
  "run_steps env [] wfl w = (None, wfl, w)"
| "run_steps env (i # is) wfl w =
     (case run_step env i wfl w of
        (Some e, wf1, w1) \<Rightarrow> (Some e, wf1, w1)
      | (None, wf1, w1) \<Rightarrow> run_steps env is wf1 w1)"

text \<open>\<^verbatim>\<open>get_results\<close>: a read-only snapshot of the workflow.\<close>

type_synonym step_view =
  "string \<times> step_status \<times> nat option \<times> nat option \<times> dict option \<times> string option"

type_synonym results_view =
  "string \<times> string \<times> workflow_status \<times> nat option \<times> nat option \<times> step_view list
     \<times> (string \<rightharpoonup> dict)"

definition get_results :: "workflow \<Rightarrow> results_view" where
  "get_results wfl =
     (workflow_id wfl, wf_name wfl, wf_status wfl, wf_start_time wfl, wf_end_time wfl,
      map (\<lambda>st. (name st, status st, start_time st, end_time st, result st, error st))
        (steps wfl),
      results wfl)"

text \<open>The outer \<^verbatim>\<open>except Exception as e\<close> branch of \<^verbatim>\<open>execute\<close>.\<close>

definition fail_workflow ::
  "env \<Rightarrow> exn \<Rightarrow> workflow \<Rightarrow> world \<Rightarrow> (exn + results_view) \<times> workflow \<times> world" where
  "fail_workflow env e wfl w =
     (let wf1 = wfl\<lparr>wf_status := FAILED, wf_end_time := Some (clock w)\<rparr> in
      case log_audit_event env (workflow_id wfl) ''workflow_failed''
             [(''name'', DStr (wf_name wfl)), (''error'', DStr (str_exn e)),
              (''step'', DInt (int (current_step wfl)))] w of
        (Inl e', w1) \<Rightarrow> (Inl e', wf1, w1)
      | (Inr u, w1) \<Rightarrow>
          (Inl (WorkflowError (''Workflow execution failed: '' @ str_exn e)), wf1, w1))"

definition execute ::
  "env \<Rightarrow> workflow \<Rightarrow> world \<Rightarrow> (exn + results_view) \<times> workflow \<times> world" where
  "execute env wf0 w0 =
     (let wf1 = wf0\<lparr>wf_start_time := Some (clock w0), wf_status := RUNNING\<rparr> in
      case create_context env (workflow_id wf1) (wf_security_level wf1) w0 of
        (Inl e, w1) \<Rightarrow> fail_workflow env e wf1 w1
      | (Inr u, w1) \<Rightarrow>
          (case log_audit_event env (workflow_id wf1) ''workflow_started''
                  [(''name'', DStr (wf_name wf1)), (''description'', DStr (description wf1)),
                   (''security_level'',
                    DStr (security_level_value (wf_security_level wf1)))] w1 of
             (Inl e, w2) \<Rightarrow> fail_workflow env e wf1 w2
           | (Inr u, w2) \<Rightarrow>
               (case run_steps env [0..<length (steps wf1)] wf1 w2 of
                  (Some e, wf2, w3) \<Rightarrow> fail_workflow env e wf2 w3
                | (None, wf2, w3) \<Rightarrow>
                    (let wf3 = wf2\<lparr>wf_status := COMPLETED, wf_end_time := Some (clock w3)\<rparr>
                     in case wf_start_time wf3 of
                          None \<Rightarrow> fail_workflow env (TypeError none_duration_msg) wf3 w3
                        | Some t0 \<Rightarrow>
                            (case log_audit_event env (workflow_id wf3) ''workflow_completed''
                                    [(''name'', DStr (wf_name wf3)),
                                     (''duration'', DInt (int (clock w3) - int t0)),
                                     (''steps_completed'', DInt (int (length (steps wf3))))]
                                    w3 of
                               (Inl e, w4) \<Rightarrow> fail_workflow env e wf3 w4
                             | (Inr u, w4) \<Rightarrow> (Inr (get_results wf3), wf3, w4))))))"

section \<open>Lifecycle controls\<close>

text \<open>
  \<^verbatim>\<open>cancel\<close>: \<^verbatim>\<open>self.steps[self.current_step]\<close> raises \<^verbatim>\<open>IndexError\<close> when the index is
  not below the length of the list (the index is never negative).
\<close>

definition cancel :: "env \<Rightarrow> workflow \<Rightarrow> world \<Rightarrow> (exn + unit) \<times> workflow \<times> world" where
  "cancel env wfl w =
     (if wf_status wfl = RUNNING then
        (let wf1 = wfl\<lparr>wf_status := CANCELLED, wf_end_time := Some (clock w)\<rparr> in
         if current_step wf1 < length (steps wf1) then
           (let cur = steps wf1 ! current_step wf1;
                (wf2, w2) =
                  (if status cur = STEP_RUNNING then
                     (let cur1 = cur\<lparr>status := STEP_FAILED, end_time := Some (clock w),
                                      error := Some ''Cancelled by user''\<rparr>
                      in (wf1\<lparr>steps := (steps wf1)[current_step wf1 := cur1]\<rparr>,
                          run_cleanup (''Cleanup failed for cancelled step '' @ name cur @ '': '')
                            cur1 (emit (StatusChange (name cur) (status cur) STEP_FAILED) w)))
                   else (wf1, w))
            in case log_audit_event env (workflow_id wf2) ''workflow_cancelled''
                      [(''name'', DStr (wf_name wf2)),
                       (''step'', DInt (int (current_step wf2)))] w2 of
                 (r, w3) \<Rightarrow> (r, wf2, w3))
         else (Inl (IndexError ''list index out of range''), wf1, w))
      else (Inr (), wfl, w))"

definition pause :: "env \<Rightarrow> workflow \<Rightarrow> world \<Rightarrow> (exn + unit) \<times> workflow \<times> world" where
  "pause env wfl w =
     (if wf_status wfl = RUNNING then
        (let wf1 = wfl\<lparr>wf_status := PAUSED\<rparr> in
         case log_audit_event env (workflow_id wf1) ''workflow_paused''
                [(''name'', DStr (wf_name wf1)), (''step'', DInt (int (current_step wf1)))] w of
           (r, w1) \<Rightarrow> (r, wf1, w1))
      else (Inr (), wfl, w))"

definition resume :: "env \<Rightarrow> workflow \<Rightarrow> world \<Rightarrow> (exn + unit) \<times> workflow \<times> world" where
  "resume env wfl w =
     (if wf_status wfl = PAUSED then
        (let wf1 = wfl\<lparr>wf_status := RUNNING\<rparr> in
         case log_audit_event env (workflow_id wf1) ''workflow_resumed''
                [(''name'', DStr (wf_name wf1)), (''step'', DInt (int (current_step wf1)))] w of
           (Inl e, w1) \<Rightarrow> (Inl e, wf1, w1)
         | (Inr u, w1) \<Rightarrow>
             (case execute env wf1 w1 of
                (Inl e, wf2, w2) \<Rightarrow> (Inl e, wf2, w2)
              | (Inr v, wf2, w2) \<Rightarrow> (Inr (), wf2, w2)))
      else (Inr (), wfl, w))"

section \<open>Runs interleaved with \<^verbatim>\<open>cancel\<close>\<close>

text \<open>
  \<^verbatim>\<open>execute\<close> is a coroutine: at every \<^verbatim>\<open>await\<close> it is suspended, and until it is
  resumed another coroutine may read the workflow or call \<^verbatim>\<open>cancel\<close> on it. The second
  embedding follows the same source lines as the functions above, with these points made
  explicit.

  The \<^verbatim>\<open>WorkflowStep\<close> objects live in a store, the list \<open>steps (cwf c)\<close>. The Python
  list \<^verbatim>\<open>self.steps\<close> is \<open>refs c\<close>: for each position the address of the object that
  stands there, so that one object can stand at several positions and an assignment
  through one of them is seen at all of them. \<open>seen c\<close> lists, oldest first, the workflow
  as it was read at each suspension point passed so far.
\<close>

record conc =
  cwf :: workflow
  refs :: "nat list"
  cwd :: world
  seen :: "workflow list"

text \<open>The workflow as a reader of \<^verbatim>\<open>self.steps\<close> has it, and the step at position \<open>i\<close>.\<close>

definition view :: "conc \<Rightarrow> workflow" where
  "view c = (cwf c)\<lparr>steps := map (\<lambda>r. steps (cwf c) ! r) (refs c)\<rparr>"

definition cur :: "nat \<Rightarrow> conc \<Rightarrow> step" where
  "cur i c = steps (cwf c) ! (refs c ! i)"

text \<open>
  Assignments to the fields of the object at position \<open>i\<close>; \<open>mark\<close> is one that sets
  \<^verbatim>\<open>status\<close>, and the trace records the value it replaces.
\<close>

definition upd_step :: "nat \<Rightarrow> (step \<Rightarrow> step) \<Rightarrow> conc \<Rightarrow> conc" where
  "upd_step i f c =
     c\<lparr>cwf := (cwf c)\<lparr>steps := (steps (cwf c))[refs c ! i := f (cur i c)]\<rparr>\<rparr>"

definition say :: "event \<Rightarrow> conc \<Rightarrow> conc" where
  "say e c = c\<lparr>cwd := emit e (cwd c)\<rparr>"

definition mark :: "nat \<Rightarrow> step_status \<Rightarrow> (step \<Rightarrow> step) \<Rightarrow> conc \<Rightarrow> conc" where
  "mark i v f c =
     upd_step i (\<lambda>s. (f s)\<lparr>status := v\<rparr>)
       (say (StatusChange (name (cur i c)) (status (cur i c)) v) c)"

text \<open>
  \<^verbatim>\<open>cancel\<close> on the store. All its assignments precede its first \<^verbatim>\<open>await\<close>, so a
  suspended \<^verbatim>\<open>execute\<close> finds them done when it is resumed; whatever \<^verbatim>\<open>cancel\<close> raises
  goes to its own caller.
\<close>

definition cleanup_conc :: "string \<Rightarrow> nat \<Rightarrow> conc \<Rightarrow> conc" where
  "cleanup_conc logline i c = c\<lparr>cwd := run_cleanup logline (cur i c) (cwd c)\<rparr>"

definition cancel_conc :: "env \<Rightarrow> conc \<Rightarrow> conc" where
  "cancel_conc env c =
     (if wf_status (cwf c) = RUNNING then
        (let c1 = c\<lparr>cwf := (cwf c)\<lparr>wf_status := CANCELLED,
                                    wf_end_time := Some (clock (cwd c))\<rparr>\<rparr>;
             k = current_step (cwf c1)
         in if k < length (refs c1) then
              (let c2 = (if status (cur k c1) = STEP_RUNNING then
                           cleanup_conc
                             (''Cleanup failed for cancelled step '' @ name (cur k c1) @ '': '') k
                             (mark k STEP_FAILED
                                (\<lambda>s. s\<lparr>end_time := Some (clock (cwd c1)),
                                        error := Some ''Cancelled by user''\<rparr>) c1)
                         else c1)
               in say (AuditEvent (workflow_id (cwf c2)) ''workflow_cancelled''
                         [(''name'', DStr (wf_name (cwf c2))),
                          (''step'', DInt (int (current_step (cwf c2))))]) c2)
            else c1)
      else c)"

text \<open>
  An \<^verbatim>\<open>await\<close> of the engine. The workflow is read; if \<open>sched\<close> holds at this point
  (points are numbered by the length of the trace), \<^verbatim>\<open>cancel\<close> is called meanwhile and
  the workflow is read again after it. \<open>points\<close> adds the workflow as it is now.
\<close>

definition suspend :: "(nat \<Rightarrow> bool) \<Rightarrow> env \<Rightarrow> conc \<Rightarrow> conc" where
  "suspend sched env c =
     (let c1 = c\<lparr>seen := seen c @ [view c]\<rparr> in
      if sched (length (trace (cwd c))) then
        (let c2 = cancel_conc env c1 in c2\<lparr>seen := seen c2 @ [view c2]\<rparr>)
      else c1)"

definition points :: "conc \<Rightarrow> workflow list" where
  "points c = seen c @ [view c]"

text \<open>The collaborators' calls, each followed by its suspension.\<close>

definition log_audit_event_conc ::
  "(nat \<Rightarrow> bool) \<Rightarrow> env \<Rightarrow> string \<Rightarrow> (string \<times> detail) list \<Rightarrow> conc \<Rightarrow> (exn + unit) \<times> conc" where
  "log_audit_event_conc sched env action details c =
     (case log_audit_event env (workflow_id (cwf c)) action details (cwd c) of
        (r, w') \<Rightarrow> (r, suspend sched env (c\<lparr>cwd := w'\<rparr>)))"

definition create_context_conc :: "(nat \<Rightarrow> bool) \<Rightarrow> env \<Rightarrow> conc \<Rightarrow> (exn + unit) \<times> conc" where
  "create_context_conc sched env c =
     (case create_context env (workflow_id (cwf c)) (wf_security_level (cwf c)) (cwd c) of
        (r, w') \<Rightarrow> (r, suspend sched env (c\<lparr>cwd := w'\<rparr>)))"

definition update_context_conc ::
  "(nat \<Rightarrow> bool) \<Rightarrow> env \<Rightarrow> string \<Rightarrow> dict \<Rightarrow> conc \<Rightarrow> (exn + unit) \<times> conc" where
  "update_context_conc sched env k v c =
     (case update_context env (workflow_id (cwf c)) k v (cwd c) of
        (r, w') \<Rightarrow> (r, suspend sched env (c\<lparr>cwd := w'\<rparr>)))"

text \<open>
  \<^verbatim>\<open>_execute_step\<close> on the object at position \<open>i\<close>, part by part as in the sequential
  embedding. What is read from the step after an \<^verbatim>\<open>await\<close> is read from the store as it
  is then.
\<close>

definition attempt_conc :: "(nat \<Rightarrow> bool) \<Rightarrow> env \<Rightarrow> nat \<Rightarrow> conc \<Rightarrow> (string + dict) \<times> conc" where
  "attempt_conc sched env i c =
     (let st = cur i c;
          out = tool st (params st) (tool_calls (trace (cwd c)));
          c1 = suspend sched env (say (ToolExecute (name st) (params st)) c)
      in case out of
           Inl e \<Rightarrow>
             (Inl (if is_timeout e
                   then ''Step timed out after '' @ str_int (timeout (cur i c1)) @ '' seconds''
                   else str_exn e), c1)
         | Inr res \<Rightarrow>
             (let c2 = mark i STEP_COMPLETED
                         (\<lambda>s. s\<lparr>end_time := Some (clock (cwd c1)), result := Some res\<rparr>) c1
              in case start_time (cur i c2) of
                   None \<Rightarrow> (Inl none_duration_msg, c2)
                 | Some t0 \<Rightarrow>
                     (case log_audit_event_conc sched env ''step_completed''
                             [(''step_name'', DStr (name (cur i c2))),
                              (''duration'', DInt (int (clock (cwd c1)) - int t0))] c2 of
                        (Inr u, c3) \<Rightarrow> (Inr res, c3)
                      | (Inl e, c3) \<Rightarrow> (Inl (str_exn e), c3))))"

definition backoff_conc :: "(nat \<Rightarrow> bool) \<Rightarrow> env \<Rightarrow> nat \<Rightarrow> nat \<Rightarrow> conc \<Rightarrow> conc" where
  "backoff_conc sched env i tries c =
     (if int tries < retry_count (cur i c)
      then suspend sched env (c\<lparr>cwd := sleep (2 ^ tries) (cwd c)\<rparr>) else c)"

definition exhausted_conc ::
  "(nat \<Rightarrow> bool) \<Rightarrow> env \<Rightarrow> nat \<Rightarrow> nat \<Rightarrow> string option \<Rightarrow> conc \<Rightarrow> (exn + dict) \<times> conc" where
  "exhausted_conc sched env i tries last_error c =
     (let c1 = mark i STEP_FAILED
                 (\<lambda>s. s\<lparr>end_time := Some (clock (cwd c)), error := last_error\<rparr>) c
      in case log_audit_event_conc sched env ''step_failed''
                [(''step_name'', DStr (name (cur i c1))), (''error'', detail_opt last_error),
                 (''retries'', DInt (int tries))] c1 of
           (Inl e, c2) \<Rightarrow> (Inl e, c2)
         | (Inr u, c2) \<Rightarrow>
             (Inl (WorkflowError (''Step '' @ name (cur i c2) @ '' failed after '' @ str_nat tries
                                  @ '' attempts: '' @ str_opt last_error)), c2))"

function retry_loop_conc ::
  "(nat \<Rightarrow> bool) \<Rightarrow> env \<Rightarrow> nat \<Rightarrow> nat \<Rightarrow> string option \<Rightarrow> conc \<Rightarrow> (exn + dict) \<times> conc" where
  "retry_loop_conc sched env i tries last_error c =
     (if int tries < retry_count (cur i c) then
        (case attempt_conc sched env i c of
           (Inr res, c1) \<Rightarrow> (Inr res, c1)
         | (Inl m, c1) \<Rightarrow>
             retry_loop_conc sched env i (Suc tries) (Some m)
               (backoff_conc sched env i (Suc tries) c1))
      else exhausted_conc sched env i tries last_error c)"
  by pat_completeness auto
termination
proof (relation "measure (\<lambda>(sched, env, i, tries, last_error, c).
                   nat (retry_count (cur i c) - int tries))", goal_cases)
  case 1
  show ?case by simp
next
  case (2 sched env i tries last_error c x1 x2 m)
  have wd: "cur j (d\<lparr>cwd := w\<rparr>) = cur j d" for d j w
    by (simp add: cur_def)
  have sn: "cur j (d\<lparr>seen := ps\<rparr>) = cur j d" for d j ps
    by (simp add: cur_def)
  have sy: "cur j (say e d) = cur j d" for d j e
    by (simp add: cur_def say_def)
  have mk: "retry_count (cur j (mark k v f d)) = retry_count (cur j d)"
    if "\<And>s. retry_count (f s) = retry_count s" for d j k f v
    using that
    by (cases "refs d ! k < length (steps (cwf d))"; cases "refs d ! j = refs d ! k")
       (auto simp: mark_def upd_step_def say_def cur_def list_update_beyond)
  have cn: "retry_count (cur j (cancel_conc env d)) = retry_count (cur j d)" for d j
    by (simp add: cancel_conc_def Let_def cleanup_conc_def wd sy mk)
       (simp add: cur_def)
  have susp: "retry_count (cur j (suspend sched env d)) = retry_count (cur j d)" for d j
    by (simp add: suspend_def Let_def sn cn)
  have la: "retry_count (cur j (snd (log_audit_event_conc sched env a dt d))) = retry_count (cur j d)"
    for a dt d j
    by (simp add: log_audit_event_conc_def split_beta susp wd)
  have att: "retry_count (cur i (snd (attempt_conc sched env i c))) = retry_count (cur i c)"
  proof -
    let ?c1 = "suspend sched env (say (ToolExecute (name (cur i c)) (params (cur i c))) c)"
    have c1: "retry_count (cur i ?c1) = retry_count (cur i c)"
      by (simp add: susp sy)
    show ?thesis
    proof (cases "tool (cur i c) (params (cur i c)) (tool_calls (trace (cwd c)))")
      case (Inl e)
      then show ?thesis by (simp add: attempt_conc_def Let_def c1)
    next
      case (Inr res)
      let ?c2 = "mark i STEP_COMPLETED
                   (\<lambda>s. s\<lparr>end_time := Some (clock (cwd ?c1)), result := Some res\<rparr>) ?c1"
      have c2: "retry_count (cur i ?c2) = retry_count (cur i c)"
        by (simp add: mk c1)
      show ?thesis
      proof (cases "start_time (cur i ?c2)")
        case None
        with Inr show ?thesis by (simp add: attempt_conc_def Let_def c2)
      next
        case (Some t0)
        let ?dt = "[(''step_name'', DStr (name (cur i ?c2))),
                   (''duration'', DInt (int (clock (cwd ?c1)) - int t0))]"
        obtain r c3 where lg:
          "log_audit_event_conc sched env ''step_completed'' ?dt ?c2 = (r, c3)"
          by (cases "log_audit_event_conc sched env ''step_completed'' ?dt ?c2") blast
        have "retry_count (cur i (snd (log_audit_event_conc sched env ''step_completed'' ?dt ?c2)))
              = retry_count (cur i ?c2)"
          by (rule la)
        then have "retry_count (cur i c3) = retry_count (cur i ?c2)"
          unfolding lg by simp
        then have c3: "retry_count (cur i c3) = retry_count (cur i c)"
          by (simp only: c2)
        from Inr Some lg c3 show ?thesis
          by (cases r) (simp_all add: attempt_conc_def Let_def)
      qed
    qed
  qed
  have bo: "retry_count (cur i (backoff_conc sched env i n d)) = retry_count (cur i d)" for n d
    by (simp add: backoff_conc_def susp wd)
  from 2 have "x2 = snd (attempt_conc sched env i c)" by (metis snd_conv)
  with 2 att bo show ?case by simp
qed

declare retry_loop_conc.simps [simp del]

definition execute_step_conc ::
  "(nat \<Rightarrow> bool) \<Rightarrow> env \<Rightarrow> nat \<Rightarrow> conc \<Rightarrow> (exn + dict) \<times> conc" where
  "execute_step_conc sched env i c =
     (let c1 = mark i STEP_RUNNING (\<lambda>s. s\<lparr>start_time := Some (clock (cwd c))\<rparr>) c
      in case log_audit_event_conc sched env ''step_started''
                [(''step_name'', DStr (name (cur i c1))),
                 (''params'', DDict (params (cur i c1)))] c1 of
           (Inl e, c2) \<Rightarrow> (Inl e, c2)
         | (Inr u, c2) \<Rightarrow> retry_loop_conc sched env i 0 None c2)"

text \<open>
  The \<^verbatim>\<open>except\<close> branch of the loop, one iteration of the loop, the loop, the outer
  \<^verbatim>\<open>except\<close> branch and \<^verbatim>\<open>execute\<close>. The cleanup hook is awaited, so it is a
  suspension point as well.
\<close>

definition handle_step_failure_conc ::
  "(nat \<Rightarrow> bool) \<Rightarrow> env \<Rightarrow> nat \<Rightarrow> exn \<Rightarrow> conc \<Rightarrow> exn \<times> conc" where
  "handle_step_failure_conc sched env i e c =
     (let c1 = say (LoggerError (''Step '' @ name (cur i c) @ '' failed: '' @ str_exn e)) c;
          c2 = mark i STEP_FAILED (\<lambda>s. s\<lparr>error := Some (str_exn e)\<rparr>) c1;
          c3 = (case cleanup (cur i c2) of
                  None \<Rightarrow> c2
                | Some out \<Rightarrow>
                    (let c' = suspend sched env (say (Cleanup (name (cur i c2))) c2)
                     in case out of
                          Inr u \<Rightarrow> c'
                        | Inl ce \<Rightarrow>
                            say (LoggerError (''Cleanup for step '' @ name (cur i c')
                                              @ '' failed: '' @ str_exn ce)) c'))
      in (WorkflowError (''Workflow failed at step '' @ name (cur i c3) @ '': '' @ str_exn e),
          c3))"

definition run_step_conc ::
  "(nat \<Rightarrow> bool) \<Rightarrow> env \<Rightarrow> nat \<Rightarrow> conc \<Rightarrow> exn option \<times> conc" where
  "run_step_conc sched env i c0 =
     (let c = c0\<lparr>cwf := (cwf c0)\<lparr>current_step := i\<rparr>\<rparr> in
      case all_conditions (conditions (cur i c)) of
        Inl e \<Rightarrow>
          (case handle_step_failure_conc sched env i e c of (e', c') \<Rightarrow> (Some e', c'))
      | Inr False \<Rightarrow> (None, mark i STEP_SKIPPED (\<lambda>s. s) c)
      | Inr True \<Rightarrow>
          (case execute_step_conc sched env i c of
             (Inl e, c1) \<Rightarrow>
               (case handle_step_failure_conc sched env i e c1 of (e', c') \<Rightarrow> (Some e', c'))
           | (Inr res, c1) \<Rightarrow>
               (let c2 = c1\<lparr>cwf := (cwf c1)\<lparr>results :=
                                         (results (cwf c1))(name (cur i c1) \<mapsto> res)\<rparr>\<rparr>
                in case update_context_conc sched env
                          (''step_'' @ str_nat i @ ''_result'') res c2 of
                     (Inl e, c3) \<Rightarrow>
                       (case handle_step_failure_conc sched env i e c3 of
                          (e', c') \<Rightarrow> (Some e', c'))
                   | (Inr u, c3) \<Rightarrow> (None, c3))))"

fun run_steps_conc ::
  "(nat \<Rightarrow> bool) \<Rightarrow> env \<Rightarrow> nat list \<Rightarrow> conc \<Rightarrow> exn option \<times> conc" where
  "run_steps_conc sched env [] c = (None, c)"
| "run_steps_conc sched env (i # is) c =
     (case run_step_conc sched env i c of
        (Some e, c1) \<Rightarrow> (Some e, c1)
      | (None, c1) \<Rightarrow> run_steps_conc sched env is c1)"

definition fail_workflow_conc ::
  "(nat \<Rightarrow> bool) \<Rightarrow> env \<Rightarrow> exn \<Rightarrow> conc \<Rightarrow> (exn + results_view) \<times> conc" where
  "fail_workflow_conc sched env e c =
     (let c1 = c\<lparr>cwf := (cwf c)\<lparr>wf_status := FAILED, wf_end_time := Some (clock (cwd c))\<rparr>\<rparr>
      in case log_audit_event_conc sched env ''workflow_failed''
                [(''name'', DStr (wf_name (cwf c1))), (''error'', DStr (str_exn e)),
                 (''step'', DInt (int (current_step (cwf c1))))] c1 of
           (Inl e', c2) \<Rightarrow> (Inl e', c2)
         | (Inr u, c2) \<Rightarrow>
             (Inl (WorkflowError (''Workflow execution failed: '' @ str_exn e)), c2))"

definition execute_conc ::
  "(nat \<Rightarrow> bool) \<Rightarrow> env \<Rightarrow> conc \<Rightarrow> (exn + results_view) \<times> conc" where
  "execute_conc sched env c0 =
     (let c = c0\<lparr>cwf := (cwf c0)\<lparr>wf_start_time := Some (clock (cwd c0)),
                                  wf_status := RUNNING\<rparr>\<rparr> in
      case create_context_conc sched env c of
        (Inl e, c1) \<Rightarrow> fail_workflow_conc sched env e c1
      | (Inr u, c1) \<Rightarrow>
          (case log_audit_event_conc sched env ''workflow_started''
                  [(''name'', DStr (wf_name (cwf c1))),
                   (''description'', DStr (description (cwf c1))),
                   (''security_level'',
                    DStr (security_level_value (wf_security_level (cwf c1))))] c1 of
             (Inl e, c2) \<Rightarrow> fail_workflow_conc sched env e c2
           | (Inr u, c2) \<Rightarrow>
               (case run_steps_conc sched env [0..<length (refs c2)] c2 of
                  (Some e, c3) \<Rightarrow> fail_workflow_conc sched env e c3
                | (None, c3) \<Rightarrow>
                    (let c4 = c3\<lparr>cwf := (cwf c3)\<lparr>wf_status := COMPLETED,
                                                   wf_end_time := Some (clock (cwd c3))\<rparr>\<rparr>
                     in case wf_start_time (cwf c4) of
                          None \<Rightarrow> fail_workflow_conc sched env (TypeError none_duration_msg) c4
                        | Some t0 \<Rightarrow>
                            (case log_audit_event_conc sched env ''workflow_completed''
                                    [(''name'', DStr (wf_name (cwf c4))),
                                     (''duration'', DInt (int (clock (cwd c3)) - int t0)),
                                     (''steps_completed'', DInt (int (length (refs c4))))]
                                    c4 of
                               (Inl e, c5) \<Rightarrow> fail_workflow_conc sched env e c5
                             | (Inr u, c5) \<Rightarrow> (Inr (get_results (view c5)), c5))))))"

text \<open>
  The state in which \<^verbatim>\<open>execute\<close> is entered: workflow \<open>wfl\<close> whose \<open>steps\<close> are the
  objects, \<open>rs\<close> the positions of \<^verbatim>\<open>self.steps\<close>, nothing read yet.
\<close>

definition start :: "workflow \<Rightarrow> nat list \<Rightarrow> world \<Rightarrow> conc" where
  "start wfl rs w = \<lparr>cwf = wfl, refs = rs, cwd = w, seen = []\<rparr>"

section \<open>Views of the code used in the proofs\<close>

text \<open>
  The part of \<^verbatim>\<open>execute\<close> before the loop: start time, status Running, context
  creation and the \<^verbatim>\<open>workflow_started\<close> event. \<open>Some e\<close>: it raised \<open>e\<close>.
\<close>

definition begin_run :: "env \<Rightarrow> workflow \<Rightarrow> world \<Rightarrow> exn option \<times> workflow \<times> world" where
  "begin_run env wf0 w0 =
     (let wf1 = wf0\<lparr>wf_start_time := Some (clock w0), wf_status := RUNNING\<rparr> in
      case create_context env (workflow_id wf1) (wf_security_level wf1) w0 of
        (Inl e, w1) \<Rightarrow> (Some e, wf1, w1)
      | (Inr u, w1) \<Rightarrow>
          (case log_audit_event env (workflow_id wf1) ''workflow_started''
                  [(''name'', DStr (wf_name wf1)), (''description'', DStr (description wf1)),
                   (''security_level'',
                    DStr (security_level_value (wf_security_level wf1)))] w1 of
             (Inl e, w2) \<Rightarrow> (Some e, wf1, w2)
           | (Inr u, w2) \<Rightarrow> (None, wf1, w2)))"

text \<open>
  The part of \<^verbatim>\<open>execute\<close> after a loop that ran to its end: status Completed, end time
  and the \<^verbatim>\<open>workflow_completed\<close> event.
\<close>

definition finish_run ::
  "env \<Rightarrow> workflow \<Rightarrow> world \<Rightarrow> (exn + results_view) \<times> workflow \<times> world" where
  "finish_run env wf2 w3 =
     (let wf3 = wf2\<lparr>wf_status := COMPLETED, wf_end_time := Some (clock w3)\<rparr>
      in case wf_start_time wf3 of
           None \<Rightarrow> fail_workflow env (TypeError none_duration_msg) wf3 w3
         | Some t0 \<Rightarrow>
             (case log_audit_event env (workflow_id wf3) ''workflow_completed''
                     [(''name'', DStr (wf_name wf3)),
                      (''duration'', DInt (int (clock w3) - int t0)),
                      (''steps_completed'', DInt (int (length (steps wf3))))]
                     w3 of
                (Inl e, w4) \<Rightarrow> fail_workflow env e wf3 w4
              | (Inr u, w4) \<Rightarrow> (Inr (get_results wf3), wf3, w4)))"

text \<open>
  What the \<^verbatim>\<open>except\<close> branch of the loop does to the step, to the world, and the
  exception it raises.
\<close>

definition failed_with :: "step \<Rightarrow> exn \<Rightarrow> step" where
  "failed_with st e = st\<lparr>status := STEP_FAILED, error := Some (str_exn e)\<rparr>"

definition failure_world :: "step \<Rightarrow> exn \<Rightarrow> world \<Rightarrow> world" where
  "failure_world st e w =
     run_cleanup (''Cleanup for step '' @ name st @ '' failed: '')
       (st\<lparr>status := STEP_FAILED, error := Some (str_exn e)\<rparr>)
       (emit (StatusChange (name st) (status st) STEP_FAILED)
          (emit (LoggerError (''Step '' @ name st @ '' failed: '' @ str_exn e)) w))"

definition step_failure :: "step \<Rightarrow> exn \<Rightarrow> exn" where
  "step_failure st e = WorkflowError (''Workflow failed at step '' @ name st @ '': '' @ str_exn e)"

text \<open>
  The fields of a step that the engine never assigns.
\<close>

definition same_policy :: "step \<Rightarrow> step \<Rightarrow> bool" where
  "same_policy st st' =
     (name st' = name st \<and> tool st' = tool st \<and> params st' = params st \<and>
      conditions st' = conditions st \<and> retry_count st' = retry_count st \<and>
      timeout st' = timeout st \<and> cleanup st' = cleanup st)"

section \<open>Observations on runs\<close>

subsection \<open>Traces\<close>

fun is_cleanup :: "event \<Rightarrow> bool" where
  "is_cleanup (Cleanup n) = True"
| "is_cleanup e = False"

text \<open>
  The delays of the sleeps in a trace, in order.
\<close>

fun delays :: "event list \<Rightarrow> nat list" where
  "delays [] = []"
| "delays (Sleep d # es) = d # delays es"
| "delays (e # es) = delays es"

definition tool_or_sleep :: "event \<Rightarrow> bool" where
  "tool_or_sleep e = (is_tool e \<or> is_sleep e)"

text \<open>
  What the retry loop adds to the trace when every attempt fails: one tool invocation
  per permitted attempt, a sleep of \<open>2 ^ k\<close> seconds after the \<open>k\<close>-th attempt for every
  attempt but the last, and delays that never decrease.
\<close>

definition retry_shape :: "step \<Rightarrow> world \<Rightarrow> world \<Rightarrow> bool" where
  "retry_shape st w w' =
     (let n = nat (retry_count st) in
      tool_calls (trace w') = tool_calls (trace w) + n \<and>
      filter tool_or_sleep (trace w') =
        filter tool_or_sleep (trace w)
        @ concat (map (\<lambda>k. [ToolExecute (name st) (params st), Sleep (2 ^ k)]) [1..<n])
        @ [ToolExecute (name st) (params st)] \<and>
      delays (trace w') = delays (trace w) @ map (\<lambda>k. 2 ^ k) [1..<n] \<and>
      sorted (drop (length (delays (trace w))) (delays (trace w'))))"




subsection \<open>Steps and results\<close>

text \<open>
  A Failed step has an error message, and the message is non-empty unless a condition
  predicate of the step raises with an empty message.
\<close>

definition error_recorded :: "step \<Rightarrow> bool" where
  "error_recorded s =
     (status s = STEP_FAILED \<longrightarrow>
        (case error s of
           None \<Rightarrow> False
         | Some m \<Rightarrow>
             m \<noteq> [] \<or>
             (case all_conditions (conditions s) of
                Inl e \<Rightarrow> str_exn e = []
              | Inr b \<Rightarrow> False)))"

definition starts_with :: "string \<Rightarrow> string \<Rightarrow> bool" where
  "starts_with p s = (take (length p) s = p)"



subsection \<open>Invariants of interleaved runs\<close>













section \<open>Example inputs\<close>

text \<open>
  Collaborators that never fail, and ones that do.
\<close>

definition quiet_env :: env where
  "quiet_env = \<lparr>audit_fails = (\<lambda>n. None), create_fails = (\<lambda>n. None), update_fails = (\<lambda>n. None)\<rparr>"

definition update_broken_env :: env where
  "update_broken_env =
     \<lparr>audit_fails = (\<lambda>n. None), create_fails = (\<lambda>n. None),
      update_fails = (\<lambda>n. Some ''connection refused'')\<rparr>"

definition audit_broken_env :: env where
  "audit_broken_env =
     \<lparr>audit_fails = (\<lambda>n. if 2 \<le> n then Some ''disk full'' else None),
      create_fails = (\<lambda>n. None), update_fails = (\<lambda>n. None)\<rparr>"

definition audit_down_env :: env where
  "audit_down_env =
     \<lparr>audit_fails = (\<lambda>n. Some ''disk full''), create_fails = (\<lambda>n. None),
      update_fails = (\<lambda>n. None)\<rparr>"

definition start_world :: world where
  "start_world = \<lparr>trace = [], clock = 0\<rparr>"

definition scan_tool :: "dict \<Rightarrow> nat \<Rightarrow> exn + dict" where
  "scan_tool p n = Inr [(''open_ports'', ''22,80'')]"

definition broken_tool :: "dict \<Rightarrow> nat \<Rightarrow> exn + dict" where
  "broken_tool p n = Inl (OtherError '''')"

text \<open>
  Steps and workflows.
\<close>

definition scan_step :: step where
  "scan_step = new_step ''port_scan'' scan_tool [(''target'', ''10.0.0.1'')] [] 3 300 (Some (Inr ()))"

definition flaky_step :: step where
  "flaky_step = new_step ''port_scan'' broken_tool [(''target'', ''10.0.0.1'')] [] 3 300 None"


definition started_step :: step where
  "started_step = scan_step\<lparr>start_time := Some 0, status := STEP_RUNNING\<rparr>"

definition fresh_workflow :: workflow where
  "fresh_workflow = new_workflow ''wf-1'' ''assessment'' ''perimeter scan'' [scan_step] HIGH"

definition flaky_workflow :: workflow where
  "flaky_workflow = new_workflow ''wf-3'' ''assessment'' ''flaky scan'' [flaky_step] HIGH"


definition gated_workflow :: workflow where
  "gated_workflow =
     new_workflow ''wf-4'' ''assessment'' ''gated scan''
       [new_step ''whois'' scan_tool [] [] 3 300 None,
        new_step ''port_scan'' scan_tool [] [Inr True, Inr False] 3 300 None,
        new_step ''report'' scan_tool [] [Inr True] 3 300 None] HIGH"

definition running_workflow :: workflow where
  "running_workflow =
     fresh_workflow\<lparr>wf_status := RUNNING, wf_start_time := Some 0,
       steps := [scan_step\<lparr>status := STEP_RUNNING, start_time := Some 0\<rparr>]\<rparr>"

definition empty_running_workflow :: workflow where
  "empty_running_workflow =
     (new_workflow ''wf-0'' ''empty'' ''no steps'' [] HIGH)
       \<lparr>wf_status := RUNNING, wf_start_time := Some 0\<rparr>"

definition paused_workflow :: workflow where
  "paused_workflow =
     (new_workflow ''wf-5'' ''assessment'' ''two steps''
        [(new_step ''whois'' scan_tool [] [] 3 300 None)
           \<lparr>status := STEP_COMPLETED, result := Some [(''registrar'', ''example'')],
            start_time := Some 0, end_time := Some 0\<rparr>,
         (new_step ''port_scan'' scan_tool [] [] 3 300 None)
           \<lparr>status := STEP_RUNNING, start_time := Some 0\<rparr>] HIGH)
       \<lparr>wf_status := PAUSED, current_step := 1, wf_start_time := Some 0,
        results := [''whois'' \<mapsto> [(''registrar'', ''example'')]]\<rparr>"

definition started_broken_env :: env where
  "started_broken_env =
     \<lparr>audit_fails = (\<lambda>n. if n = 1 then Some ''disk full'' else None),
      create_fails = (\<lambda>n. None), update_fails = (\<lambda>n. None)\<rparr>"

text \<open>
  Schedules: \<^verbatim>\<open>cancel\<close> is called at the suspension point at which the trace has \<open>k\<close>
  entries, or never.
\<close>

definition cancel_at :: "nat \<Rightarrow> nat \<Rightarrow> bool" where
  "cancel_at k n = (n = k)"


section \<open>Lemmas about the retry executor\<close>

lemma delays_append: "delays (xs @ ys) = delays xs @ delays ys"
  by (induction xs rule: delays.induct) auto

lemma attempt_failing:
  assumes "tool st (params st) (tool_calls (trace w)) = Inl e"
  shows "\<exists>m. attempt env wid st w = (Inl m, st, emit (ToolExecute (name st) (params st)) w)"
  using assms by (simp add: attempt_def Let_def)

lemma trace_emit: "trace (emit e w) = trace w @ [e]"
  by (simp add: emit_def)

lemma trace_sleep: "trace (sleep d w) = trace w @ [Sleep d]"
  by (simp add: sleep_def emit_def)

lemma exhausted_trace:
  "\<exists>r st1 a. exhausted env wid st tries le w = (r, st1, w\<lparr>trace := trace w @ [StatusChange (name st) (status st) STEP_FAILED, a]\<rparr>) \<and> is_audit a"
  by (auto simp: exhausted_def Let_def log_audit_event_def emit_def split: option.splits)

lemma retry_loop_failing:
  assumes "\<forall>k. \<exists>e. tool st (params st) k = Inl e"
  shows "int tries < retry_count st \<Longrightarrow>
     filter tool_or_sleep (trace (snd (snd (retry_loop env wid st tries le w)))) =
       filter tool_or_sleep (trace w)
       @ concat (map (\<lambda>k. [ToolExecute (name st) (params st), Sleep (2 ^ k)]) [Suc tries..<nat (retry_count st)])
       @ [ToolExecute (name st) (params st)]"
  using assms
proof (induction env wid st tries le w rule: retry_loop.induct)
  case (1 env wid st tries last_error w)
  from "1.prems" obtain m where att:
    "attempt env wid st w = (Inl m, st, emit (ToolExecute (name st) (params st)) w)"
    using attempt_failing by metis
  let ?w1 = "emit (ToolExecute (name st) (params st)) w"
  show ?case
  proof (cases "int (Suc tries) < retry_count st")
    case True
    have ih: "filter tool_or_sleep (trace (snd (snd (retry_loop env wid st (Suc tries) (Some m) (backoff st (Suc tries) ?w1))))) =
       filter tool_or_sleep (trace (backoff st (Suc tries) ?w1))
       @ concat (map (\<lambda>k. [ToolExecute (name st) (params st), Sleep (2 ^ k)]) [Suc (Suc tries)..<nat (retry_count st)])
       @ [ToolExecute (name st) (params st)]"
      using "1.IH" [OF "1.prems"(1) att [symmetric] refl refl True "1.prems"(2)] .
    have up: "[Suc tries..<nat (retry_count st)] = Suc tries # [Suc (Suc tries)..<nat (retry_count st)]"
      using True by (simp add: upt_conv_Cons)
    have step: "retry_loop env wid st tries last_error w =
        retry_loop env wid st (Suc tries) (Some m) (backoff st (Suc tries) ?w1)"
      using "1.prems"(1) by (subst retry_loop.simps) (simp add: att)
    have tr: "filter tool_or_sleep (trace (backoff st (Suc tries) ?w1)) =
        filter tool_or_sleep (trace w) @ [ToolExecute (name st) (params st), Sleep (2 ^ Suc tries)]"
      using True by (simp add: backoff_def trace_sleep trace_emit tool_or_sleep_def del: power_Suc)
    show ?thesis
      unfolding step ih tr up by simp
  next
    case False
    with "1.prems"(1) have eq: "nat (retry_count st) = Suc tries" by linarith
    obtain r st1 a where ex: "exhausted env wid st (Suc tries) (Some m) ?w1 = (r, st1, ?w1\<lparr>trace := trace ?w1 @ [StatusChange (name st) (status st) STEP_FAILED, a]\<rparr>)" and a: "is_audit a"
      using exhausted_trace by blast
    have na: "\<not> tool_or_sleep a" using a by (cases a) (auto simp: tool_or_sleep_def)
    have step: "retry_loop env wid st tries last_error w =
        exhausted env wid st (Suc tries) (Some m) ?w1"
      using "1.prems"(1) False
      by (subst retry_loop.simps, simp add: att backoff_def, subst retry_loop.simps, simp)
    show ?thesis
      unfolding step ex eq using na by (simp add: trace_emit tool_or_sleep_def)
  qed
qed

lemma filter_tool_proj: "filter is_tool (filter tool_or_sleep xs) = filter is_tool xs"
  by (induction xs) (auto simp: tool_or_sleep_def)

lemma filter_tool_conj: "filter (\<lambda>x. tool_or_sleep x \<and> is_tool x) xs = filter is_tool xs"
  by (induction xs) (auto simp: tool_or_sleep_def)

lemma delays_proj: "delays (filter tool_or_sleep xs) = delays xs"
  by (induction xs rule: delays.induct) (auto simp: tool_or_sleep_def)

lemma tools_in_rounds:
  "length (filter is_tool (concat (map (\<lambda>k. [ToolExecute n p, Sleep (2 ^ k)]) ks))) = length ks"
  by (induction ks) auto

lemma delays_in_rounds:
  "delays (concat (map (\<lambda>k. [ToolExecute n p, Sleep (2 ^ k)]) ks)) = map (\<lambda>k. 2 ^ k) ks"
  by (induction ks) auto

lemma sorted_backoff: "sorted (map (\<lambda>k. (2::nat) ^ k) [m..<n])"
  by (simp add: sorted_map sorted_wrt_iff_nth_less)

lemma retry_loop_shape:
  assumes "\<forall>k. \<exists>e. tool st (params st) k = Inl e" and "1 \<le> retry_count st"
  shows "retry_shape st w (snd (snd (retry_loop env wid st 0 None w)))"
proof -
  let ?w' = "snd (snd (retry_loop env wid st 0 None w))"
  let ?n = "nat (retry_count st)"
  have lt: "int 0 < retry_count st" using assms(2) by simp
  have proj: "filter tool_or_sleep (trace ?w') =
        filter tool_or_sleep (trace w)
        @ concat (map (\<lambda>k. [ToolExecute (name st) (params st), Sleep (2 ^ k)]) [1..<?n])
        @ [ToolExecute (name st) (params st)]"
    using retry_loop_failing [OF assms(1) lt, of env wid None w] by simp
  have "filter is_tool (trace ?w') = filter is_tool (filter tool_or_sleep (trace ?w'))"
    by (simp only: filter_tool_proj)
  then have calls: "tool_calls (trace ?w') = tool_calls (trace w) + ?n"
    unfolding proj tool_calls_def using assms(2)
    by (simp add: filter_tool_conj tools_in_rounds)
  have "delays (trace ?w') = delays (filter tool_or_sleep (trace ?w'))"
    by (simp only: delays_proj)
  then have del: "delays (trace ?w') = delays (trace w) @ map (\<lambda>k. 2 ^ k) [1..<?n]"
    unfolding proj by (simp add: delays_append delays_proj delays_in_rounds)
  show ?thesis
    unfolding retry_shape_def Let_def using proj calls del by (simp add: sorted_backoff)
qed

lemma execute_step_accepted:
  assumes "audit_fails env (audit_calls (trace w)) = None"
  shows "execute_step env wid st w =
     retry_loop env wid (st\<lparr>start_time := Some (clock w), status := STEP_RUNNING\<rparr>) 0 None
       (w\<lparr>trace := trace w @ [StatusChange (name st) (status st) STEP_RUNNING,
          AuditEvent wid ''step_started''
            [(''step_name'', DStr (name st)), (''params'', DDict (params st))]]\<rparr>)"
  using assms
  by (simp add: execute_step_def Let_def log_audit_event_def emit_def audit_calls_def)

lemma trace_run_cleanup:
  "filter is_cleanup (trace (run_cleanup l st w)) =
     filter is_cleanup (trace w) @ (case cleanup st of None \<Rightarrow> [] | Some c \<Rightarrow> [Cleanup (name st)])"
  by (simp add: run_cleanup_def emit_def split: option.splits sum.splits)

lemma log_audit_event_world:
  "snd (log_audit_event env sid a d w) = emit (AuditEvent sid a d) w"
  by (simp add: log_audit_event_def split: option.splits)

section \<open>Lemmas about the orchestrator\<close>

subsection \<open>What a step execution leaves unchanged and what it returns\<close>


lemma same_policy_trans: "same_policy a b \<Longrightarrow> same_policy b c \<Longrightarrow> same_policy a c"
  by (simp add: same_policy_def)

lemma attempt_policy: "attempt env wid st w = (r, st1, w1) \<Longrightarrow> same_policy st st1"
  by (auto simp: attempt_def Let_def same_policy_def split: sum.splits option.splits prod.splits)

lemma attempt_result:
  "attempt env wid st w = (Inr res, st1, w1) \<Longrightarrow> status st1 = STEP_COMPLETED \<and> result st1 = Some res"
  by (auto simp: attempt_def Let_def split: sum.splits option.splits prod.splits)

lemma exhausted_policy: "exhausted env wid st tries le w = (r, st1, w1) \<Longrightarrow> same_policy st st1"
  by (auto simp: exhausted_def Let_def same_policy_def split: sum.splits prod.splits)

lemma exhausted_result:
  "exhausted env wid st tries le w = (r, st1, w1) \<Longrightarrow>
     (\<exists>e. r = Inl e \<and> str_exn e \<noteq> []) \<and> status st1 = STEP_FAILED \<and> error st1 = le"
  by (auto simp: exhausted_def Let_def log_audit_event_def split: sum.splits prod.splits option.splits)

lemma retry_loop_policy:
  "retry_loop env wid st tries le w = (r, st', w') \<Longrightarrow> same_policy st st'"
proof (induction env wid st tries le w arbitrary: r st' w' rule: retry_loop.induct)
  case (1 env wid st tries last_error w)
  show ?case
  proof (cases "int tries < retry_count st")
    case False
    with "1.prems" show ?thesis
      by (subst (asm) retry_loop.simps) (simp add: exhausted_policy)
  next
    case True
    obtain a st1 w1 where att: "attempt env wid st w = (a, st1, w1)"
      by (cases "attempt env wid st w") auto
    show ?thesis
    proof (cases a)
      case (Inr res)
      with "1.prems" True att show ?thesis
        by (subst (asm) retry_loop.simps) (auto dest: attempt_policy)
    next
      case (Inl m)
      with "1.prems" True att
      have "retry_loop env wid st1 (Suc tries) (Some m) (backoff st1 (Suc tries) w1) = (r, st', w')"
        by (subst (asm) retry_loop.simps) simp
      then have "same_policy st1 st'"
        using "1.IH" [OF True att [symmetric] Inl refl] by blast
      with attempt_policy [OF att] show ?thesis
        by (rule same_policy_trans)
    qed
  qed
qed

lemma retry_loop_result:
  "retry_loop env wid st tries le w = (r, st', w') \<Longrightarrow>
     (case r of Inr res \<Rightarrow> status st' = STEP_COMPLETED \<and> result st' = Some res
              | Inl e \<Rightarrow> status st' = STEP_FAILED \<and> str_exn e \<noteq> [])"
proof (induction env wid st tries le w arbitrary: r st' w' rule: retry_loop.induct)
  case (1 env wid st tries last_error w)
  show ?case
  proof (cases "int tries < retry_count st")
    case False
    with "1.prems" show ?thesis
      by (subst (asm) retry_loop.simps) (auto dest: exhausted_result)
  next
    case True
    obtain a st1 w1 where att: "attempt env wid st w = (a, st1, w1)"
      by (cases "attempt env wid st w") auto
    show ?thesis
    proof (cases a)
      case (Inr res)
      with "1.prems" True att show ?thesis
        by (subst (asm) retry_loop.simps) (auto dest: attempt_result)
    next
      case (Inl m)
      with "1.prems" True att
      have "retry_loop env wid st1 (Suc tries) (Some m) (backoff st1 (Suc tries) w1) = (r, st', w')"
        by (subst (asm) retry_loop.simps) simp
      then show ?thesis
        using "1.IH" [OF True att [symmetric] Inl refl] by blast
    qed
  qed
qed

lemma execute_step_policy:
  "execute_step env wid st w = (r, st', w') \<Longrightarrow> same_policy st st'"
  by (auto simp: execute_step_def Let_def same_policy_def split: prod.splits sum.splits
           dest!: retry_loop_policy)

lemma execute_step_result:
  "execute_step env wid st w = (r, st', w') \<Longrightarrow>
     (case r of Inr res \<Rightarrow> status st' = STEP_COMPLETED \<and> result st' = Some res
              | Inl e \<Rightarrow> str_exn e \<noteq> [])"
  by (auto simp: execute_step_def Let_def log_audit_event_def
           split: prod.splits sum.splits option.splits dest!: retry_loop_result)

subsection \<open>The five outcomes of a loop iteration\<close>

lemma handle_step_failure_eq:
  "i < length (steps wfl) \<Longrightarrow>
   handle_step_failure i e (wfl\<lparr>steps := (steps wfl)[i := st]\<rparr>) w =
     (step_failure st e, wfl\<lparr>steps := (steps wfl)[i := failed_with st e]\<rparr>, failure_world st e w)"
  by (simp add: handle_step_failure_def Let_def failure_world_def failed_with_def step_failure_def)

lemma handle_step_failure_eq0:
  "i < length (steps wfl) \<Longrightarrow>
   handle_step_failure i e wfl w =
     (step_failure (steps wfl ! i) e,
      wfl\<lparr>steps := (steps wfl)[i := failed_with (steps wfl ! i) e]\<rparr>,
      failure_world (steps wfl ! i) e w)"
  by (simp add: handle_step_failure_def Let_def failure_world_def failed_with_def step_failure_def)

lemma run_step_cond_raise:
  assumes "i < length (steps wfl)" and "all_conditions (conditions (steps wfl ! i)) = Inl e"
  shows "run_step env i wfl w =
     (Some (step_failure (steps wfl ! i) e),
      wfl\<lparr>current_step := i, steps := (steps wfl)[i := failed_with (steps wfl ! i) e]\<rparr>,
      failure_world (steps wfl ! i) e w)"
  using assms handle_step_failure_eq0 [of i "wfl\<lparr>current_step := i\<rparr>" e w]
  by (simp add: run_step_def Let_def)

lemma run_step_skip:
  assumes "all_conditions (conditions (steps wfl ! i)) = Inr False"
  shows "run_step env i wfl w =
     (None,
      wfl\<lparr>current_step := i, steps := (steps wfl)[i := (steps wfl ! i)\<lparr>status := STEP_SKIPPED\<rparr>]\<rparr>,
      emit (StatusChange (name (steps wfl ! i)) (status (steps wfl ! i)) STEP_SKIPPED) w)"
  using assms by (simp add: run_step_def Let_def)

lemma run_step_exec_raise:
  assumes "i < length (steps wfl)" and "all_conditions (conditions (steps wfl ! i)) = Inr True"
    and "execute_step env (workflow_id wfl) (steps wfl ! i) w = (Inl e, st1, w1)"
  shows "run_step env i wfl w =
     (Some (step_failure st1 e),
      wfl\<lparr>current_step := i, steps := (steps wfl)[i := failed_with st1 e]\<rparr>,
      failure_world st1 e w1)"
  using assms handle_step_failure_eq [of i "wfl\<lparr>current_step := i\<rparr>" e st1 w1]
  by (simp add: run_step_def Let_def)

lemma run_step_update_raise:
  assumes "i < length (steps wfl)" and "all_conditions (conditions (steps wfl ! i)) = Inr True"
    and "execute_step env (workflow_id wfl) (steps wfl ! i) w = (Inr res, st1, w1)"
    and "update_fails env (length (filter is_update (trace w1))) = Some m"
  shows "run_step env i wfl w =
     (Some (step_failure st1 (ContextError (''Context update failed: '' @ m))),
      wfl\<lparr>current_step := i,
          steps := (steps wfl)[i := failed_with st1 (ContextError (''Context update failed: '' @ m))],
          results := (results wfl)(name st1 \<mapsto> res)\<rparr>,
      failure_world st1 (ContextError (''Context update failed: '' @ m))
        (emit (UpdateContext (workflow_id wfl) (''step_'' @ str_nat i @ ''_result'') res) w1))"
  using assms
    handle_step_failure_eq0 [of i "wfl\<lparr>current_step := i, steps := (steps wfl)[i := st1],
          results := (results wfl)(name st1 \<mapsto> res)\<rparr>"
       "ContextError (''Context update failed: '' @ m)"
       "emit (UpdateContext (workflow_id wfl) (''step_'' @ str_nat i @ ''_result'') res) w1"]
  by (simp add: run_step_def Let_def update_context_def)

lemma run_step_ok:
  assumes "all_conditions (conditions (steps wfl ! i)) = Inr True"
    and "execute_step env (workflow_id wfl) (steps wfl ! i) w = (Inr res, st1, w1)"
    and "update_fails env (length (filter is_update (trace w1))) = None"
  shows "run_step env i wfl w =
     (None,
      wfl\<lparr>current_step := i, steps := (steps wfl)[i := st1],
          results := (results wfl)(name st1 \<mapsto> res)\<rparr>,
      emit (UpdateContext (workflow_id wfl) (''step_'' @ str_nat i @ ''_result'') res) w1)"
  using assms by (simp add: run_step_def Let_def update_context_def)

lemma run_step_cases [consumes 1, case_names cond_raise skip exec_raise update_raise ok]:
  assumes "i < length (steps wfl)"
  obtains
    (cond_raise) e where "all_conditions (conditions (steps wfl ! i)) = Inl e"
      "run_step env i wfl w =
        (Some (step_failure (steps wfl ! i) e),
         wfl\<lparr>current_step := i, steps := (steps wfl)[i := failed_with (steps wfl ! i) e]\<rparr>,
         failure_world (steps wfl ! i) e w)"
  | (skip) "all_conditions (conditions (steps wfl ! i)) = Inr False"
      "run_step env i wfl w =
        (None,
         wfl\<lparr>current_step := i, steps := (steps wfl)[i := (steps wfl ! i)\<lparr>status := STEP_SKIPPED\<rparr>]\<rparr>,
         emit (StatusChange (name (steps wfl ! i)) (status (steps wfl ! i)) STEP_SKIPPED) w)"
  | (exec_raise) e st1 w1 where "all_conditions (conditions (steps wfl ! i)) = Inr True"
      "execute_step env (workflow_id wfl) (steps wfl ! i) w = (Inl e, st1, w1)"
      "run_step env i wfl w =
        (Some (step_failure st1 e),
         wfl\<lparr>current_step := i, steps := (steps wfl)[i := failed_with st1 e]\<rparr>,
         failure_world st1 e w1)"
  | (update_raise) res st1 w1 m where "all_conditions (conditions (steps wfl ! i)) = Inr True"
      "execute_step env (workflow_id wfl) (steps wfl ! i) w = (Inr res, st1, w1)"
      "update_fails env (length (filter is_update (trace w1))) = Some m"
      "run_step env i wfl w =
        (Some (step_failure st1 (ContextError (''Context update failed: '' @ m))),
         wfl\<lparr>current_step := i,
             steps := (steps wfl)[i := failed_with st1 (ContextError (''Context update failed: '' @ m))],
             results := (results wfl)(name st1 \<mapsto> res)\<rparr>,
         failure_world st1 (ContextError (''Context update failed: '' @ m))
           (emit (UpdateContext (workflow_id wfl) (''step_'' @ str_nat i @ ''_result'') res) w1))"
  | (ok) res st1 w1 where "all_conditions (conditions (steps wfl ! i)) = Inr True"
      "execute_step env (workflow_id wfl) (steps wfl ! i) w = (Inr res, st1, w1)"
      "update_fails env (length (filter is_update (trace w1))) = None"
      "run_step env i wfl w =
        (None,
         wfl\<lparr>current_step := i, steps := (steps wfl)[i := st1],
             results := (results wfl)(name st1 \<mapsto> res)\<rparr>,
         emit (UpdateContext (workflow_id wfl) (''step_'' @ str_nat i @ ''_result'') res) w1)"
proof (cases "all_conditions (conditions (steps wfl ! i))")
  case (Inl e)
  show ?thesis by (rule cond_raise [OF Inl run_step_cond_raise [OF assms Inl]])
next
  case (Inr b)
  show ?thesis
  proof (cases b)
    case False
    with Inr have c: "all_conditions (conditions (steps wfl ! i)) = Inr False" by simp
    show ?thesis by (rule skip [OF c run_step_skip [OF c]])
  next
    case True
    with Inr have c: "all_conditions (conditions (steps wfl ! i)) = Inr True" by simp
    obtain r st1 w1 where ex: "execute_step env (workflow_id wfl) (steps wfl ! i) w = (r, st1, w1)"
      by (cases "execute_step env (workflow_id wfl) (steps wfl ! i) w") auto
    show ?thesis
    proof (cases r)
      case (Inl e)
      with ex have ex': "execute_step env (workflow_id wfl) (steps wfl ! i) w = (Inl e, st1, w1)"
        by simp
      show ?thesis by (rule exec_raise [OF c ex' run_step_exec_raise [OF assms c ex']])
    next
      case (Inr res)
      with ex have ex': "execute_step env (workflow_id wfl) (steps wfl ! i) w = (Inr res, st1, w1)"
        by simp
      show ?thesis
      proof (cases "update_fails env (length (filter is_update (trace w1)))")
        case None
        show ?thesis by (rule ok [OF c ex' None run_step_ok [OF c ex' None]])
      next
        case (Some m)
        show ?thesis
          by (rule update_raise [OF c ex' Some run_step_update_raise [OF assms c ex' Some]])
      qed
    qed
  qed
qed

subsection \<open>The structure of a run\<close>

lemma run_steps_append:
  "run_steps env (xs @ ys) wfl w =
     (case run_steps env xs wfl w of
        (Some e, wfl1, w1) \<Rightarrow> (Some e, wfl1, w1)
      | (None, wfl1, w1) \<Rightarrow> run_steps env ys wfl1 w1)"
  by (induction xs arbitrary: wfl w) (auto split: prod.splits option.splits)

lemma run_step_length:
  "i < length (steps wfl) \<Longrightarrow> length (steps (fst (snd (run_step env i wfl w)))) = length (steps wfl)"
  by (cases rule: run_step_cases [of i wfl env w]) auto

lemma execute_unfold:
  "execute env wf0 w0 =
     (case begin_run env wf0 w0 of
        (Some e, wf1, w1) \<Rightarrow> fail_workflow env e wf1 w1
      | (None, wf1, w2) \<Rightarrow>
          (case run_steps env [0..<length (steps wf1)] wf1 w2 of
             (Some e, wf2, w3) \<Rightarrow> fail_workflow env e wf2 w3
           | (None, wf2, w3) \<Rightarrow> finish_run env wf2 w3))"
  by (simp add: execute_def begin_run_def finish_run_def Let_def
           split: prod.splits sum.splits option.splits)

lemma begin_run_wf:
  "fst (snd (begin_run env wf0 w0)) = wf0\<lparr>wf_start_time := Some (clock w0), wf_status := RUNNING\<rparr>"
  by (simp add: begin_run_def Let_def split: prod.splits sum.splits)

lemma fail_workflow_wf:
  "fail_workflow env e wfl w = (r, wfl', w') \<Longrightarrow>
     (\<exists>e'. r = Inl e') \<and> wfl' = wfl\<lparr>wf_status := FAILED, wf_end_time := Some (clock w)\<rparr>"
  by (auto simp: fail_workflow_def Let_def split: prod.splits sum.splits)


lemma run_steps_length:
  "\<forall>i\<in>set is. i < length (steps wfl) \<Longrightarrow>
     length (steps (fst (snd (run_steps env is wfl w)))) = length (steps wfl)"
proof (induction "is" arbitrary: wfl w)
  case Nil
  then show ?case by simp
next
  case (Cons i "is")
  obtain r wfl1 w1 where rs: "run_step env i wfl w = (r, wfl1, w1)"
    by (cases "run_step env i wfl w") auto
  have len: "length (steps wfl1) = length (steps wfl)"
    using run_step_length [of i wfl env w] Cons.prems rs by simp
  show ?case
  proof (cases r)
    case None
    with rs len Cons.prems Cons.IH [of wfl1 w1] show ?thesis by simp
  next
    case (Some e)
    with rs len show ?thesis by simp
  qed
qed


subsection \<open>The error of a failed step\<close>

lemma all_set_update: "(\<forall>s\<in>set xs. P s) \<Longrightarrow> P y \<Longrightarrow> \<forall>s\<in>set (xs[i := y]). P s"
proof
  fix s assume a: "\<forall>s\<in>set xs. P s" "P y" and s: "s \<in> set (xs[i := y])"
  from s have "s \<in> insert y (set xs)"
    using set_update_subset_insert [of xs i y] by (rule subsetD [rotated])
  with a show "P s" by (cases "s = y") simp_all
qed

lemma failed_with_conditions [simp]: "conditions (failed_with st e) = conditions st"
  by (simp add: failed_with_def)

lemma run_step_error_recorded:
  assumes "i < length (steps wfl)" and "\<forall>s\<in>set (steps wfl). error_recorded s"
  shows "\<forall>s\<in>set (steps (fst (snd (run_step env i wfl w)))). error_recorded s"
  using assms(1)
proof (cases rule: run_step_cases [where env = env and w = w])
  case (cond_raise e)
  have ok: "error_recorded (failed_with (steps wfl ! i) e)"
    using cond_raise(1) by (simp add: error_recorded_def failed_with_def)
  have st: "steps (fst (snd (run_step env i wfl w))) =
      (steps wfl)[i := failed_with (steps wfl ! i) e]"
    by (simp add: cond_raise(2))
  show ?thesis unfolding st by (rule all_set_update [where P = error_recorded, OF assms(2) ok])
next
  case skip
  have ok: "error_recorded ((steps wfl ! i)\<lparr>status := STEP_SKIPPED\<rparr>)"
    by (simp add: error_recorded_def)
  have st: "steps (fst (snd (run_step env i wfl w))) =
      (steps wfl)[i := (steps wfl ! i)\<lparr>status := STEP_SKIPPED\<rparr>]"
    by (simp add: skip(2))
  show ?thesis unfolding st by (rule all_set_update [where P = error_recorded, OF assms(2) ok])
next
  case (exec_raise e st1 w1)
  have "str_exn e \<noteq> []" using execute_step_result [OF exec_raise(2)] by simp
  then have ok: "error_recorded (failed_with st1 e)"
    by (simp add: error_recorded_def failed_with_def)
  have st: "steps (fst (snd (run_step env i wfl w))) = (steps wfl)[i := failed_with st1 e]"
    by (simp add: exec_raise(3))
  show ?thesis unfolding st by (rule all_set_update [where P = error_recorded, OF assms(2) ok])
next
  case (update_raise res st1 w1 m)
  have ok: "error_recorded (failed_with st1 (ContextError (''Context update failed: '' @ m)))"
    by (simp add: error_recorded_def failed_with_def)
  have st: "steps (fst (snd (run_step env i wfl w))) =
      (steps wfl)[i := failed_with st1 (ContextError (''Context update failed: '' @ m))]"
    by (simp add: update_raise(4))
  show ?thesis unfolding st by (rule all_set_update [where P = error_recorded, OF assms(2) ok])
next
  case (ok res st1 w1)
  have "status st1 = STEP_COMPLETED" using execute_step_result [OF ok(2)] by simp
  then have ok': "error_recorded st1" by (simp add: error_recorded_def)
  have st: "steps (fst (snd (run_step env i wfl w))) = (steps wfl)[i := st1]"
    by (simp add: ok(4))
  show ?thesis unfolding st by (rule all_set_update [where P = error_recorded, OF assms(2) ok'])
qed

lemma run_steps_error_recorded:
  assumes "\<forall>i\<in>set is. i < length (steps wfl)" and "\<forall>s\<in>set (steps wfl). error_recorded s"
  shows "\<forall>s\<in>set (steps (fst (snd (run_steps env is wfl w)))). error_recorded s"
  using assms
proof (induction "is" arbitrary: wfl w)
  case Nil
  then show ?case by simp
next
  case (Cons i "is")
  obtain r wfl1 w1 where rs: "run_step env i wfl w = (r, wfl1, w1)"
    by (cases "run_step env i wfl w") auto
  have len: "length (steps wfl1) = length (steps wfl)"
    using run_step_length [of i wfl env w] Cons.prems rs by simp
  have inv: "\<forall>s\<in>set (steps wfl1). error_recorded s"
    using run_step_error_recorded [of i wfl env w] Cons.prems rs by simp
  show ?case
  proof (cases r)
    case None
    have "\<forall>s\<in>set (steps (fst (snd (run_steps env is wfl1 w1)))). error_recorded s"
      using Cons.IH [of wfl1 w1] Cons.prems(1) len inv by simp
    with rs None show ?thesis by simp
  next
    case (Some e)
    with rs inv show ?thesis by simp
  qed
qed

subsection \<open>Evaluation on the examples\<close>

lemmas run_defs = execute_def Let_def create_context_def log_audit_event_def update_context_def
  emit_def audit_calls_def tool_calls_def run_step_def handle_step_failure_def run_cleanup_def
  fail_workflow_def execute_step_def retry_loop.simps attempt_def backoff_def exhausted_def
  sleep_def get_results_def str_nat.simps digit_char_def str_int_def

lemma flaky_run:
  "status (steps (fst (snd (execute quiet_env flaky_workflow start_world))) ! 0) = STEP_FAILED \<and>
   error (steps (fst (snd (execute quiet_env flaky_workflow start_world))) ! 0)
     = Some ''Step port_scan failed after 3 attempts: ''"
  by (simp add: run_defs quiet_env_def start_world_def flaky_workflow_def flaky_step_def
        broken_tool_def new_workflow_def new_step_def)

subsection \<open>Condition gating and cleanup calls\<close>

lemma all_conditions_first_false:
  "k < length cs \<Longrightarrow> cs ! k = Inr False \<Longrightarrow> \<forall>j<k. cs ! j = Inr True \<Longrightarrow>
     all_conditions cs = Inr False"
proof (induction cs arbitrary: k rule: all_conditions.induct)
  case 1
  then show ?case by simp
next
  case (2 e cs)
  then show ?case by (cases k) auto
next
  case (3 b cs)
  show ?case
  proof (cases k)
    case 0
    with "3.prems" show ?thesis by simp
  next
    case (Suc k')
    with "3.prems" have b: "b" by auto
    have "\<forall>j<k'. cs ! j = Inr True"
    proof (intro allI impI)
      fix j assume "j < k'"
      then have "(Inr b # cs) ! Suc j = Inr True" using "3.prems"(3) Suc by blast
      then show "cs ! j = Inr True" by simp
    qed
    then have "all_conditions cs = Inr False"
      using "3.IH" [OF b, of k'] "3.prems" Suc by auto
    with b show ?thesis by simp
  qed
qed

lemma fail_workflow_cleanups:
  "filter is_cleanup (trace (snd (snd (fail_workflow env e wfl w)))) = filter is_cleanup (trace w)"
  by (simp add: fail_workflow_def Let_def log_audit_event_def emit_def split: option.splits)

lemma failure_world_cleanups:
  "filter is_cleanup (trace (failure_world st e w)) =
     filter is_cleanup (trace w) @ (case cleanup st of None \<Rightarrow> [] | Some c \<Rightarrow> [Cleanup (name st)])"
  by (simp add: failure_world_def trace_run_cleanup trace_emit split: option.splits)

lemma upt_split_at: "i < n \<Longrightarrow> [0..<n] = [0..<i] @ i # [Suc i..<n]"
  by (metis le_add1 less_imp_add_positive upt_add_eq_append upt_conv_Cons plus_nat.add_0)

lemmas example_defs = quiet_env_def start_world_def new_workflow_def new_step_def scan_tool_def
  broken_tool_def scan_step_def fresh_workflow_def update_broken_env_def begin_run_def

subsection \<open>Tool invocations and audit failures\<close>

lemma attempt_tool_calls:
  "tool_calls (trace (snd (snd (attempt env wid st w)))) = Suc (tool_calls (trace w))"
  by (simp add: attempt_def Let_def tool_calls_def emit_def log_audit_event_def
           split: sum.splits option.splits)

lemma backoff_tool_calls: "tool_calls (trace (backoff st n w)) = tool_calls (trace w)"
  by (simp add: backoff_def sleep_def emit_def tool_calls_def)

lemma exhausted_tool_calls:
  "tool_calls (trace (snd (snd (exhausted env wid st tries le w)))) = tool_calls (trace w)"
  by (simp add: exhausted_def Let_def tool_calls_def emit_def log_audit_event_def
           split: option.splits)

lemma retry_loop_tool_calls:
  "tool_calls (trace w) + (if int tries < retry_count st then 1 else 0)
     \<le> tool_calls (trace (snd (snd (retry_loop env wid st tries le w))))"
proof (induction env wid st tries le w rule: retry_loop.induct)
  case (1 env wid st tries last_error w)
  show ?case
  proof (cases "int tries < retry_count st")
    case False
    then show ?thesis
      by (subst retry_loop.simps) (simp add: exhausted_tool_calls)
  next
    case True
    obtain a st1 w1 where att: "attempt env wid st w = (a, st1, w1)"
      by (cases "attempt env wid st w") auto
    have w1: "tool_calls (trace w1) = Suc (tool_calls (trace w))"
      using attempt_tool_calls [of env wid st w] att by simp
    show ?thesis
    proof (cases a)
      case (Inr res)
      with True att w1 show ?thesis by (subst retry_loop.simps) simp
    next
      case (Inl m)
      have "tool_calls (trace (backoff st1 (Suc tries) w1))
          \<le> tool_calls (trace (snd (snd (retry_loop env wid st1 (Suc tries) (Some m)
                (backoff st1 (Suc tries) w1)))))"
        using "1.IH" [OF True att [symmetric] Inl refl] by (simp split: if_splits)
      with True att Inl w1 show ?thesis
        by (subst retry_loop.simps) (simp add: backoff_tool_calls)
    qed
  qed
qed

lemma execute_step_rejected:
  assumes "audit_fails env (audit_calls (trace w)) = Some m"
  shows "execute_step env wid st w =
     (Inl (LoggingError (''Failed to log audit event: '' @ m)),
      st\<lparr>start_time := Some (clock w), status := STEP_RUNNING\<rparr>,
      emit (AuditEvent wid ''step_started''
              [(''step_name'', DStr (name st)), (''params'', DDict (params st))])
        (emit (StatusChange (name st) (status st) STEP_RUNNING) w))"
  using assms
  by (simp add: execute_step_def Let_def log_audit_event_def emit_def audit_calls_def)

lemma failure_world_tools:
  "filter is_tool (trace (failure_world st e w)) = filter is_tool (trace w)"
  by (simp add: failure_world_def run_cleanup_def trace_emit split: option.splits sum.splits)

lemma attempt_audit_rejected:
  assumes "tool st (params st) (tool_calls (trace w)) = Inr res"
    and "start_time st = Some t0"
    and "audit_fails env (audit_calls (trace w)) = Some m"
  shows "\<exists>w3. attempt env wid st w =
     (Inl (''Failed to log audit event: '' @ m),
      st\<lparr>status := STEP_COMPLETED, end_time := Some (clock w), result := Some res\<rparr>, w3)"
  using assms
  by (simp add: attempt_def Let_def log_audit_event_def emit_def audit_calls_def)

subsection \<open>The results mapping\<close>

lemma starts_with_append: "starts_with p (p @ m)"
  by (simp add: starts_with_def)







subsection \<open>Status changes\<close>




















text \<open>
  A rejected \<^verbatim>\<open>step_completed\<close> event is caught by the \<^verbatim>\<open>except Exception\<close> clause of the
  retry loop, which encloses the call: the attempt counts as failed although the tool
  call succeeded.
\<close>

lemma rejected_step_completed_is_retried:
  assumes "tool st (params st) (tool_calls (trace w)) = Inr res" and "start_time st = Some t0"
    and "audit_fails env (audit_calls (trace w)) = Some m" and "int tries < retry_count st"
  shows "int (Suc tries) < retry_count st \<Longrightarrow>
           tool_calls (trace w) + 2
             \<le> tool_calls (trace (snd (snd (retry_loop env wid st tries le w))))"
    and "\<not> int (Suc tries) < retry_count st \<Longrightarrow>
           status (fst (snd (retry_loop env wid st tries le w))) = STEP_FAILED \<and>
           error (fst (snd (retry_loop env wid st tries le w)))
             = Some (''Failed to log audit event: '' @ m)"
proof -
  let ?msg = "''Failed to log audit event: '' @ m"
  let ?st1 = "st\<lparr>status := STEP_COMPLETED, end_time := Some (clock w), result := Some res\<rparr>"
  obtain w3 where att: "attempt env wid st w = (Inl ?msg, ?st1, w3)"
    using attempt_audit_rejected [of st w res t0 env m wid] assms by blast
  have w3: "tool_calls (trace w3) = Suc (tool_calls (trace w))"
    using attempt_tool_calls [of env wid st w] att by simp
  have step: "retry_loop env wid st tries le w =
      retry_loop env wid ?st1 (Suc tries) (Some ?msg) (backoff ?st1 (Suc tries) w3)"
    using assms(4) by (subst retry_loop.simps) (simp add: att)
  {
    assume more: "int (Suc tries) < retry_count st"
    have "tool_calls (trace (backoff ?st1 (Suc tries) w3)) + 1
        \<le> tool_calls (trace (snd (snd (retry_loop env wid ?st1 (Suc tries) (Some ?msg)
              (backoff ?st1 (Suc tries) w3)))))"
      using retry_loop_tool_calls [of "backoff ?st1 (Suc tries) w3" "Suc tries" ?st1 env wid "Some ?msg"]
        more by simp
    then show "tool_calls (trace w) + 2
           \<le> tool_calls (trace (snd (snd (retry_loop env wid st tries le w))))"
      unfolding step by (simp add: backoff_tool_calls w3)
  }
  {
    assume last: "\<not> int (Suc tries) < retry_count st"
    have fin: "retry_loop env wid st tries le w = exhausted env wid ?st1 (Suc tries) (Some ?msg) w3"
      unfolding step using last by (subst retry_loop.simps) (simp add: backoff_def)
    obtain r st2 w4 where ex: "exhausted env wid ?st1 (Suc tries) (Some ?msg) w3 = (r, st2, w4)"
      by (cases "exhausted env wid ?st1 (Suc tries) (Some ?msg) w3") auto
    note res = exhausted_result [OF ex]
    show "status (fst (snd (retry_loop env wid st tries le w))) = STEP_FAILED \<and>
           error (fst (snd (retry_loop env wid st tries le w)))
             = Some (''Failed to log audit event: '' @ m)"
      unfolding fin ex using res by simp
  }
qed

section \<open>Lemmas about interleaved runs\<close>

subsection \<open>What is kept across a suspension\<close>


















subsection \<open>The error of a failed step\<close>






























subsection \<open>How an attempt and a step execution end\<close>
















subsection \<open>The error invariant over a run\<close>









subsection \<open>Evaluation on the examples\<close>

lemmas conc_defs = execute_conc_def create_context_conc_def log_audit_event_conc_def
  update_context_conc_def suspend_def cancel_conc_def cleanup_conc_def run_step_conc_def
  execute_step_conc_def retry_loop_conc.simps attempt_conc_def backoff_conc_def
  exhausted_conc_def handle_step_failure_conc_def fail_workflow_conc_def mark_def upd_step_def
  say_def cur_def view_def points_def start_def


lemma cancelled_points:
  "map (\<lambda>p. map (\<lambda>s. (status s, error s)) (steps p))
     (points (snd (execute_conc (cancel_at 5) quiet_env (start fresh_workflow [0] start_world))))
   = [[(STEP_PENDING, None)], [(STEP_PENDING, None)], [(STEP_RUNNING, None)],
      [(STEP_RUNNING, None)], [(STEP_FAILED, Some ''Cancelled by user'')],
      [(STEP_COMPLETED, Some ''Cancelled by user'')],
      [(STEP_COMPLETED, Some ''Cancelled by user'')],
      [(STEP_COMPLETED, Some ''Cancelled by user'')],
      [(STEP_COMPLETED, Some ''Cancelled by user'')]]"
  by (simp add: conc_defs cancel_at_def Let_def run_defs example_defs fresh_workflow_def scan_step_def
      emit_def audit_calls_def tool_calls_def sleep_def run_cleanup_def
      str_nat.simps digit_char_def)



section \<open>The claims\<close>

text \<open>
  C1. A step whose tool fails on every attempt, with \<open>retry_count\<close> at least 1: the retry
  loop of \<^verbatim>\<open>_execute_step\<close> invokes the tool exactly \<open>retry_count\<close> times; after the
  \<open>k\<close>-th attempt (counted from 1) it sleeps \<open>2 ^ k\<close> seconds, except after the last
  one; the delays are non-decreasing. The same holds for the whole of
  \<^verbatim>\<open>_execute_step\<close> once the audit sink has accepted \<^verbatim>\<open>step_started\<close>.
\<close>

theorem retry_bound:
  assumes "\<forall>k. \<exists>e. tool st (params st) k = Inl e" and "1 \<le> retry_count st"
  shows "retry_shape st w (snd (snd (retry_loop env wid st 0 None w))) \<and>
         (audit_fails env (audit_calls (trace w)) = None \<longrightarrow>
            retry_shape st w (snd (snd (execute_step env wid st w))))"
proof
  show "retry_shape st w (snd (snd (retry_loop env wid st 0 None w)))"
    using assms by (rule retry_loop_shape)
next
  show "audit_fails env (audit_calls (trace w)) = None \<longrightarrow>
            retry_shape st w (snd (snd (execute_step env wid st w)))"
  proof
    assume ok: "audit_fails env (audit_calls (trace w)) = None"
    let ?st1 = "st\<lparr>start_time := Some (clock w), status := STEP_RUNNING\<rparr>"
    let ?a = "AuditEvent wid ''step_started''
            [(''step_name'', DStr (name st)), (''params'', DDict (params st))]"
    let ?w2 = "w\<lparr>trace := trace w @ [StatusChange (name st) (status st) STEP_RUNNING, ?a]\<rparr>"
    have eq: "execute_step env wid st w = retry_loop env wid ?st1 0 None ?w2"
      using execute_step_accepted [OF ok] .
    have sh: "retry_shape ?st1 ?w2 (snd (snd (retry_loop env wid ?st1 0 None ?w2)))"
      using assms by (intro retry_loop_shape) simp_all
    show "retry_shape st w (snd (snd (execute_step env wid st w)))"
      using sh unfolding eq retry_shape_def Let_def
      by (simp add: tool_calls_def tool_or_sleep_def delays_append sorted_backoff)
  qed
qed

theorem retry_bound_witness:
  "(\<forall>k. \<exists>e. tool flaky_step (params flaky_step) k = Inl e) \<and> 1 \<le> retry_count flaky_step \<and>
   tool_calls (trace (snd (snd (retry_loop quiet_env ''wf-1'' flaky_step 0 None start_world)))) = 3 \<and>
   delays (trace (snd (snd (retry_loop quiet_env ''wf-1'' flaky_step 0 None start_world)))) = [2, 4] \<and>
   delays (trace (snd (snd (execute_step quiet_env ''wf-1'' flaky_step start_world)))) = [2, 4]"
proof -
  have h1: "\<forall>k. \<exists>e. tool flaky_step (params flaky_step) k = Inl e"
    by (simp add: flaky_step_def new_step_def broken_tool_def)
  have h2: "1 \<le> retry_count flaky_step"
    by (simp add: flaky_step_def new_step_def)
  have up: "[Suc 0..<3] = [1, 2::nat]" by (simp add: upt_rec)
  have n: "nat (retry_count flaky_step) = 3" by (simp add: flaky_step_def new_step_def)
  show ?thesis
    using h1 h2 retry_bound [OF h1 h2, of start_world quiet_env "''wf-1''"]
    unfolding retry_shape_def Let_def n
    by (simp add: up start_world_def quiet_env_def tool_calls_def audit_calls_def)
qed

text \<open>
  C5. \<^verbatim>\<open>cancel\<close> on a workflow that is Running and whose current step is Running: the
  workflow becomes Cancelled with its end time recorded, the step becomes Failed with
  error \<^verbatim>\<open>Cancelled by user\<close>, and its cleanup, when present, is invoked exactly once.
  On a workflow that is not Running, \<^verbatim>\<open>cancel\<close> returns with the workflow and the world
  unchanged.
\<close>

theorem cancel_cooperative:
  "(wf_status wfl = RUNNING \<and> current_step wfl < length (steps wfl) \<and>
    status (steps wfl ! current_step wfl) = STEP_RUNNING \<longrightarrow>
      wf_status (fst (snd (cancel env wfl w))) = CANCELLED \<and>
      wf_end_time (fst (snd (cancel env wfl w))) = Some (clock w) \<and>
      status (steps (fst (snd (cancel env wfl w))) ! current_step wfl) = STEP_FAILED \<and>
      error (steps (fst (snd (cancel env wfl w))) ! current_step wfl) = Some ''Cancelled by user'' \<and>
      filter is_cleanup (trace (snd (snd (cancel env wfl w)))) =
        filter is_cleanup (trace w)
        @ (case cleanup (steps wfl ! current_step wfl) of
             None \<Rightarrow> []
           | Some c \<Rightarrow> [Cleanup (name (steps wfl ! current_step wfl))])) \<and>
   (wf_status wfl \<noteq> RUNNING \<longrightarrow> cancel env wfl w = (Inr (), wfl, w))"
proof (intro conjI impI)
  assume "wf_status wfl \<noteq> RUNNING"
  then show "cancel env wfl w = (Inr (), wfl, w)"
    by (simp add: cancel_def)
next
  assume a: "wf_status wfl = RUNNING \<and> current_step wfl < length (steps wfl) \<and>
    status (steps wfl ! current_step wfl) = STEP_RUNNING"
  let ?cur = "steps wfl ! current_step wfl"
  let ?cur1 = "?cur\<lparr>status := STEP_FAILED, end_time := Some (clock w),
                      error := Some ''Cancelled by user''\<rparr>"
  let ?wfl2 = "wfl\<lparr>wf_status := CANCELLED, wf_end_time := Some (clock w),
                    steps := (steps wfl)[current_step wfl := ?cur1]\<rparr>"
  let ?w2 = "run_cleanup (''Cleanup failed for cancelled step '' @ name ?cur @ '': '') ?cur1
               (emit (StatusChange (name ?cur) (status ?cur) STEP_FAILED) w)"
  have wf': "fst (snd (cancel env wfl w)) = ?wfl2"
    using a by (simp add: cancel_def Let_def split_beta)
  have w': "snd (snd (cancel env wfl w)) =
      emit (AuditEvent (workflow_id wfl) ''workflow_cancelled''
             [(''name'', DStr (wf_name wfl)), (''step'', DInt (int (current_step wfl)))]) ?w2"
    using a by (simp add: cancel_def Let_def split_beta log_audit_event_world)
  show "wf_status (fst (snd (cancel env wfl w))) = CANCELLED"
    unfolding wf' by simp
  show "wf_end_time (fst (snd (cancel env wfl w))) = Some (clock w)"
    unfolding wf' by simp
  show "status (steps (fst (snd (cancel env wfl w))) ! current_step wfl) = STEP_FAILED"
    unfolding wf' using a by simp
  show "error (steps (fst (snd (cancel env wfl w))) ! current_step wfl) = Some ''Cancelled by user''"
    unfolding wf' using a by simp
  show "filter is_cleanup (trace (snd (snd (cancel env wfl w)))) =
        filter is_cleanup (trace w)
        @ (case cleanup ?cur of None \<Rightarrow> [] | Some c \<Rightarrow> [Cleanup (name ?cur)])"
    unfolding w' by (simp add: trace_emit trace_run_cleanup split: option.splits)
qed

theorem cancel_cooperative_witness:
  "wf_status running_workflow = RUNNING \<and>
   current_step running_workflow < length (steps running_workflow) \<and>
   status (steps running_workflow ! current_step running_workflow) = STEP_RUNNING \<and>
   wf_status (fst (snd (cancel quiet_env running_workflow start_world))) = CANCELLED \<and>
   error (steps (fst (snd (cancel quiet_env running_workflow start_world))) ! 0)
     = Some ''Cancelled by user'' \<and>
   filter is_cleanup (trace (snd (snd (cancel quiet_env running_workflow start_world))))
     = [Cleanup ''port_scan''] \<and>
   wf_status fresh_workflow \<noteq> RUNNING \<and>
   snd (snd (cancel quiet_env fresh_workflow start_world)) = start_world"
  using cancel_cooperative [of running_workflow quiet_env start_world]
    cancel_cooperative [of fresh_workflow quiet_env start_world]
  by (simp add: running_workflow_def fresh_workflow_def new_workflow_def scan_step_def
        new_step_def start_world_def)

text \<open>
  C10. \<^verbatim>\<open>cancel\<close> on a Running workflow with no steps raises \<^verbatim>\<open>IndexError\<close> at
  \<^verbatim>\<open>self.steps[self.current_step]\<close>: the status is already Cancelled and the end time
  set, but no \<^verbatim>\<open>workflow_cancelled\<close> event is emitted.
\<close>

theorem cancel_without_steps:
  assumes "wf_status wfl = RUNNING" and "steps wfl = []"
  shows "cancel env wfl w =
           (Inl (IndexError ''list index out of range''),
            wfl\<lparr>wf_status := CANCELLED, wf_end_time := Some (clock w)\<rparr>, w)"
  using assms by (simp add: cancel_def Let_def)

theorem cancel_without_steps_witness:
  "wf_status empty_running_workflow = RUNNING \<and> steps empty_running_workflow = [] \<and>
   fst (cancel quiet_env empty_running_workflow start_world)
     = Inl (IndexError ''list index out of range'') \<and>
   wf_status (fst (snd (cancel quiet_env empty_running_workflow start_world))) = CANCELLED \<and>
   trace (snd (snd (cancel quiet_env empty_running_workflow start_world))) = []"
  using cancel_without_steps [of empty_running_workflow quiet_env start_world]
  by (simp add: empty_running_workflow_def new_workflow_def start_world_def)




text \<open>
  C6. A step one of whose condition predicates evaluates to false (every predicate before
  it having returned true) is set to Skipped and the loop goes on with the next index:
  its tool is not invoked, no audit event is emitted, \<open>results\<close> and every other step
  are unchanged.
\<close>

theorem false_condition_skips_step:
  assumes "i < length (steps wfl)"
    and "k < length (conditions (steps wfl ! i))"
    and "conditions (steps wfl ! i) ! k = Inr False"
    and "\<forall>j<k. conditions (steps wfl ! i) ! j = Inr True"
  shows "fst (run_step env i wfl w) = None \<and>
         status (steps (fst (snd (run_step env i wfl w))) ! i) = STEP_SKIPPED \<and>
         (\<forall>j. j \<noteq> i \<longrightarrow> steps (fst (snd (run_step env i wfl w))) ! j = steps wfl ! j) \<and>
         results (fst (snd (run_step env i wfl w))) = results wfl \<and>
         filter is_tool (trace (snd (snd (run_step env i wfl w)))) = filter is_tool (trace w) \<and>
         filter is_audit (trace (snd (snd (run_step env i wfl w)))) = filter is_audit (trace w) \<and>
         run_steps env (i # is) wfl w =
           run_steps env is (fst (snd (run_step env i wfl w))) (snd (snd (run_step env i wfl w)))"
proof -
  have c: "all_conditions (conditions (steps wfl ! i)) = Inr False"
    using assms(2-4) by (rule all_conditions_first_false)
  show ?thesis
    using assms(1) by (simp add: run_step_skip [OF c] trace_emit)
qed

theorem false_condition_skips_step_witness:
  "1 < length (steps gated_workflow) \<and>
   1 < length (conditions (steps gated_workflow ! 1)) \<and>
   conditions (steps gated_workflow ! 1) ! 1 = Inr False \<and>
   conditions (steps gated_workflow ! 1) ! 0 = Inr True \<and>
   fst (run_step quiet_env 1 gated_workflow start_world) = None \<and>
   status (steps (fst (snd (run_step quiet_env 1 gated_workflow start_world))) ! 1) = STEP_SKIPPED \<and>
   trace (snd (snd (run_step quiet_env 1 gated_workflow start_world)))
     = [StatusChange ''port_scan'' STEP_PENDING STEP_SKIPPED] \<and>
   map status (steps (fst (snd (execute quiet_env gated_workflow start_world))))
     = [STEP_COMPLETED, STEP_SKIPPED, STEP_COMPLETED] \<and>
   results (fst (snd (execute quiet_env gated_workflow start_world))) ''port_scan'' = None \<and>
   results (fst (snd (execute quiet_env gated_workflow start_world))) ''report''
     = Some [(''open_ports'', ''22,80'')]"
proof -
  have h1: "1 < length (steps gated_workflow)"
    and h2: "1 < length (conditions (steps gated_workflow ! 1))"
    and h3: "conditions (steps gated_workflow ! 1) ! 1 = Inr False"
    and h4: "\<forall>j<1. conditions (steps gated_workflow ! 1) ! j = Inr True"
    by (simp_all add: gated_workflow_def example_defs)
  have run: "map status (steps (fst (snd (execute quiet_env gated_workflow start_world))))
      = [STEP_COMPLETED, STEP_SKIPPED, STEP_COMPLETED] \<and>
     results (fst (snd (execute quiet_env gated_workflow start_world))) ''port_scan'' = None \<and>
     results (fst (snd (execute quiet_env gated_workflow start_world))) ''report''
       = Some [(''open_ports'', ''22,80'')]"
    by (simp add: run_defs gated_workflow_def example_defs upt_rec)
  show ?thesis
    using false_condition_skips_step [OF h1 h2 h3 h4, of quiet_env start_world "[]"] h1 h2 h3 h4 run
    by (simp add: run_step_def Let_def emit_def gated_workflow_def example_defs)
qed

text \<open>
  C9. The context store's update fails after the tool call of step \<open>i\<close> has succeeded
  (the step is Completed, its result stored): \<^verbatim>\<open>execute\<close> raises, the workflow is Failed,
  the step is overwritten to Failed with the context store's message as its error, its
  cleanup (when present) is invoked, and the step's entry stays in \<open>results\<close>.
\<close>

theorem context_update_failure_after_success:
  assumes "begin_run env wf0 w0 = (None, wf1, w2)"
    and "i < length (steps wf0)"
    and "run_steps env [0..<i] wf1 w2 = (None, wfl, w)"
    and "all_conditions (conditions (steps wfl ! i)) = Inr True"
    and "execute_step env (workflow_id wfl) (steps wfl ! i) w = (Inr res, st1, w1)"
    and "update_fails env (length (filter is_update (trace w1))) = Some m"
  shows "status st1 = STEP_COMPLETED \<and> result st1 = Some res \<and>
         (\<exists>e. fst (execute env wf0 w0) = Inl e) \<and>
         wf_status (fst (snd (execute env wf0 w0))) = FAILED \<and>
         status (steps (fst (snd (execute env wf0 w0))) ! i) = STEP_FAILED \<and>
         error (steps (fst (snd (execute env wf0 w0))) ! i) = Some (''Context update failed: '' @ m) \<and>
         results (fst (snd (execute env wf0 w0))) (name (steps wfl ! i)) = Some res \<and>
         filter is_cleanup (trace (snd (snd (execute env wf0 w0)))) =
           filter is_cleanup (trace w1)
           @ (case cleanup (steps wfl ! i) of None \<Rightarrow> [] | Some c \<Rightarrow> [Cleanup (name (steps wfl ! i))])"
proof -
  let ?e = "ContextError (''Context update failed: '' @ m)"
  let ?u = "emit (UpdateContext (workflow_id wfl) (''step_'' @ str_nat i @ ''_result'') res) w1"
  let ?wfl' = "wfl\<lparr>current_step := i, steps := (steps wfl)[i := failed_with st1 ?e],
                    results := (results wfl)(name st1 \<mapsto> res)\<rparr>"
  have wf1: "wf1 = wf0\<lparr>wf_start_time := Some (clock w0), wf_status := RUNNING\<rparr>"
    using begin_run_wf [of env wf0 w0] assms(1) by simp
  then have len1: "length (steps wf1) = length (steps wf0)" by simp
  have "length (steps (fst (snd (run_steps env [0..<i] wf1 w2)))) = length (steps wf1)"
    using assms(2) len1 by (intro run_steps_length) simp
  then have i: "i < length (steps wfl)" using assms(2,3) len1 by simp
  have pol: "same_policy (steps wfl ! i) st1" using execute_step_policy [OF assms(5)] .
  have compl: "status st1 = STEP_COMPLETED \<and> result st1 = Some res"
    using execute_step_result [OF assms(5)] by simp
  have rs: "run_step env i wfl w = (Some (step_failure st1 ?e), ?wfl', failure_world st1 ?e ?u)"
    using run_step_update_raise [OF i assms(4,5,6)] .
  have "run_steps env [0..<length (steps wf1)] wf1 w2 =
          (Some (step_failure st1 ?e), ?wfl', failure_world st1 ?e ?u)"
    using assms(2,3) len1 rs by (simp add: upt_split_at [of i "length (steps wf0)"] run_steps_append)
  then have ex: "execute env wf0 w0 =
      fail_workflow env (step_failure st1 ?e) ?wfl' (failure_world st1 ?e ?u)"
    using assms(1) by (simp add: execute_unfold)
  obtain r W w' where fw:
    "fail_workflow env (step_failure st1 ?e) ?wfl' (failure_world st1 ?e ?u) = (r, W, w')"
    by (cases "fail_workflow env (step_failure st1 ?e) ?wfl' (failure_world st1 ?e ?u)") auto
  have W: "(\<exists>e'. r = Inl e') \<and>
      W = ?wfl'\<lparr>wf_status := FAILED, wf_end_time := Some (clock (failure_world st1 ?e ?u))\<rparr>"
    using fail_workflow_wf [OF fw] .
  have cl: "filter is_cleanup (trace (snd (snd (execute env wf0 w0)))) =
      filter is_cleanup (trace w1) @ (case cleanup st1 of None \<Rightarrow> [] | Some c \<Rightarrow> [Cleanup (name st1)])"
    unfolding ex by (simp add: fail_workflow_cleanups failure_world_cleanups trace_emit)
  have nm: "name st1 = name (steps wfl ! i)" "cleanup st1 = cleanup (steps wfl ! i)"
    using pol by (simp_all add: same_policy_def)
  show ?thesis
    using compl W i cl nm unfolding ex fw by (auto simp: failed_with_def split: option.splits)
qed

theorem context_update_failure_after_success_witness:
  "fst (begin_run update_broken_env fresh_workflow start_world) = None \<and>
   0 < length (steps fresh_workflow) \<and>
   all_conditions (conditions (steps fresh_workflow ! 0)) = Inr True \<and>
   fst (execute_step update_broken_env ''wf-1'' scan_step
          (snd (snd (begin_run update_broken_env fresh_workflow start_world))))
     = Inr [(''open_ports'', ''22,80'')] \<and>
   wf_status (fst (snd (execute update_broken_env fresh_workflow start_world))) = FAILED \<and>
   status (steps (fst (snd (execute update_broken_env fresh_workflow start_world))) ! 0) = STEP_FAILED \<and>
   error (steps (fst (snd (execute update_broken_env fresh_workflow start_world))) ! 0)
     = Some ''Context update failed: connection refused'' \<and>
   results (fst (snd (execute update_broken_env fresh_workflow start_world))) ''port_scan''
     = Some [(''open_ports'', ''22,80'')] \<and>
   filter is_cleanup (trace (snd (snd (execute update_broken_env fresh_workflow start_world))))
     = [Cleanup ''port_scan'']"
proof -
  let ?b = "begin_run update_broken_env fresh_workflow start_world"
  let ?wf1 = "fst (snd ?b)"
  let ?w2 = "snd (snd ?b)"
  let ?x = "execute_step update_broken_env (workflow_id ?wf1) (steps ?wf1 ! 0) ?w2"
  have b: "fst ?b = None" by (simp add: example_defs log_audit_event_def create_context_def emit_def audit_calls_def)
  then have h1: "?b = (None, ?wf1, ?w2)" by (simp add: prod_eq_iff)
  have h2: "0 < length (steps fresh_workflow)" by (simp add: example_defs)
  have h3: "run_steps update_broken_env [0..<0] ?wf1 ?w2 = (None, ?wf1, ?w2)" by simp
  have wf1: "?wf1 = fresh_workflow\<lparr>wf_start_time := Some (clock start_world), wf_status := RUNNING\<rparr>"
    by (rule begin_run_wf)
  have h4: "all_conditions (conditions (steps ?wf1 ! 0)) = Inr True"
    unfolding wf1 by (simp add: example_defs)
  have x: "fst ?x = Inr [(''open_ports'', ''22,80'')]"
    unfolding wf1 by (simp add: run_defs example_defs)
  then have h5: "?x = (Inr [(''open_ports'', ''22,80'')], fst (snd ?x), snd (snd ?x))"
    by (simp add: prod_eq_iff)
  have h6: "update_fails update_broken_env (length (filter is_update (trace (snd (snd ?x)))))
      = Some ''connection refused''"
    by (simp add: update_broken_env_def)
  have nm: "name (steps ?wf1 ! 0) = ''port_scan''" "cleanup (steps ?wf1 ! 0) = Some (Inr ())"
    "workflow_id ?wf1 = ''wf-1''" "steps ?wf1 ! 0 = scan_step"
    unfolding wf1 by (simp_all add: example_defs)
  have cl: "filter is_cleanup (trace (snd (snd ?x))) = []"
    unfolding wf1 by (simp add: run_defs example_defs)
  show ?thesis
    using context_update_failure_after_success [OF h1 h2 h3 h4 h5 h6] b h2 h4 x nm cl
    by (simp add: fresh_workflow_def new_workflow_def)
qed

text \<open>
  C4, as the code has it. No call of the audit sink is guarded, so a failure of the
  sink for \<^verbatim>\<open>step_started\<close> or \<^verbatim>\<open>step_failed\<close> propagates as the step's failure.
  A rejected \<^verbatim>\<open>step_started\<close>: the tool is never invoked, the step is marked Failed
  with the sink's message as its error, and the loop iteration raises. A rejected
  \<^verbatim>\<open>step_failed\<close>: the code after the retry loop leaves the step Failed and raises in
  either case, but it raises the sink's \<^verbatim>\<open>LoggingError\<close> instead of the
  \<^verbatim>\<open>WorkflowError\<close> that reports the attempts; and whatever \<^verbatim>\<open>_execute_step\<close> raises,
  the handler marks the step Failed and records that exception's message as the step's
  error. Nothing is stated here for \<^verbatim>\<open>step_completed\<close>.
\<close>

theorem audit_failure_propagates:
  "(i < length (steps wfl) \<and> all_conditions (conditions (steps wfl ! i)) = Inr True \<and>
    audit_fails env (audit_calls (trace w)) = Some m \<longrightarrow>
      fst (run_step env i wfl w) \<noteq> None \<and>
      status (steps (fst (snd (run_step env i wfl w))) ! i) = STEP_FAILED \<and>
      error (steps (fst (snd (run_step env i wfl w))) ! i)
        = Some (''Failed to log audit event: '' @ m) \<and>
      filter is_tool (trace (snd (snd (run_step env i wfl w)))) = filter is_tool (trace w)) \<and>
   (status (fst (snd (exhausted env wid st tries le w))) = STEP_FAILED \<and>
    error (fst (snd (exhausted env wid st tries le w))) = le \<and>
    (audit_fails env (audit_calls (trace w)) = None \<longrightarrow>
       fst (exhausted env wid st tries le w) =
         Inl (WorkflowError (''Step '' @ name st @ '' failed after '' @ str_nat tries
                             @ '' attempts: '' @ str_opt le))) \<and>
    (audit_fails env (audit_calls (trace w)) = Some m \<longrightarrow>
       fst (exhausted env wid st tries le w) =
         Inl (LoggingError (''Failed to log audit event: '' @ m)))) \<and>
   (i < length (steps wfl) \<and> all_conditions (conditions (steps wfl ! i)) = Inr True \<and>
    execute_step env (workflow_id wfl) (steps wfl ! i) w = (Inl e, st1, w1) \<longrightarrow>
      fst (run_step env i wfl w) \<noteq> None \<and>
      status (steps (fst (snd (run_step env i wfl w))) ! i) = STEP_FAILED \<and>
      error (steps (fst (snd (run_step env i wfl w))) ! i) = Some (str_exn e))"
proof (intro conjI impI)
  assume a: "i < length (steps wfl) \<and> all_conditions (conditions (steps wfl ! i)) = Inr True \<and>
    audit_fails env (audit_calls (trace w)) = Some m"
  let ?e = "LoggingError (''Failed to log audit event: '' @ m)"
  let ?st = "steps wfl ! i"
  let ?st1 = "?st\<lparr>start_time := Some (clock w), status := STEP_RUNNING\<rparr>"
  let ?w1 = "emit (AuditEvent (workflow_id wfl) ''step_started''
              [(''step_name'', DStr (name ?st)), (''params'', DDict (params ?st))])
        (emit (StatusChange (name ?st) (status ?st) STEP_RUNNING) w)"
  have ex: "execute_step env (workflow_id wfl) ?st w = (Inl ?e, ?st1, ?w1)"
    using a by (simp add: execute_step_rejected)
  have rs: "run_step env i wfl w =
     (Some (step_failure ?st1 ?e),
      wfl\<lparr>current_step := i, steps := (steps wfl)[i := failed_with ?st1 ?e]\<rparr>,
      failure_world ?st1 ?e ?w1)"
    using a run_step_exec_raise [OF _ _ ex] by simp
  show "fst (run_step env i wfl w) \<noteq> None" unfolding rs by simp
  show "status (steps (fst (snd (run_step env i wfl w))) ! i) = STEP_FAILED"
    unfolding rs using a by (simp add: failed_with_def)
  show "error (steps (fst (snd (run_step env i wfl w))) ! i)
        = Some (''Failed to log audit event: '' @ m)"
    unfolding rs using a by (simp add: failed_with_def)
  show "filter is_tool (trace (snd (snd (run_step env i wfl w)))) = filter is_tool (trace w)"
    unfolding rs by (simp add: failure_world_tools trace_emit)
next
  show "status (fst (snd (exhausted env wid st tries le w))) = STEP_FAILED"
    by (simp add: exhausted_def Let_def split: prod.splits sum.splits)
  show "error (fst (snd (exhausted env wid st tries le w))) = le"
    by (simp add: exhausted_def Let_def split: prod.splits sum.splits)
next
  assume "audit_fails env (audit_calls (trace w)) = None"
  then show "fst (exhausted env wid st tries le w) =
         Inl (WorkflowError (''Step '' @ name st @ '' failed after '' @ str_nat tries
                             @ '' attempts: '' @ str_opt le))"
    by (simp add: exhausted_def Let_def log_audit_event_def emit_def audit_calls_def)
next
  assume "audit_fails env (audit_calls (trace w)) = Some m"
  then show "fst (exhausted env wid st tries le w) =
         Inl (LoggingError (''Failed to log audit event: '' @ m))"
    by (simp add: exhausted_def Let_def log_audit_event_def emit_def audit_calls_def)
next
  assume c: "i < length (steps wfl) \<and> all_conditions (conditions (steps wfl ! i)) = Inr True \<and>
    execute_step env (workflow_id wfl) (steps wfl ! i) w = (Inl e, st1, w1)"
  have rs: "run_step env i wfl w =
     (Some (step_failure st1 e),
      wfl\<lparr>current_step := i, steps := (steps wfl)[i := failed_with st1 e]\<rparr>,
      failure_world st1 e w1)"
    using c run_step_exec_raise [of i wfl env w e st1 w1] by simp
  show "fst (run_step env i wfl w) \<noteq> None" unfolding rs by simp
  show "status (steps (fst (snd (run_step env i wfl w))) ! i) = STEP_FAILED"
    unfolding rs using c by (simp add: failed_with_def)
  show "error (steps (fst (snd (run_step env i wfl w))) ! i) = Some (str_exn e)"
    unfolding rs using c by (simp add: failed_with_def)
qed

theorem audit_failure_propagates_witness:
  "0 < length (steps fresh_workflow) \<and>
   all_conditions (conditions (steps fresh_workflow ! 0)) = Inr True \<and>
   audit_fails audit_down_env (audit_calls (trace start_world)) = Some ''disk full'' \<and>
   audit_fails quiet_env (audit_calls (trace start_world)) = None \<and>
   fst (execute_step audit_down_env (workflow_id fresh_workflow) (steps fresh_workflow ! 0)
          start_world) = Inl (LoggingError ''Failed to log audit event: disk full'') \<and>
   status (steps (fst (snd (run_step audit_down_env 0 fresh_workflow start_world))) ! 0)
     = STEP_FAILED \<and>
   error (steps (fst (snd (run_step audit_down_env 0 fresh_workflow start_world))) ! 0)
     = Some ''Failed to log audit event: disk full'' \<and>
   filter is_tool (trace (snd (snd (run_step audit_down_env 0 fresh_workflow start_world)))) = [] \<and>
   fst (exhausted quiet_env ''wf-1'' started_step 3 (Some ''boom'') start_world)
     = Inl (WorkflowError ''Step port_scan failed after 3 attempts: boom'') \<and>
   fst (exhausted audit_down_env ''wf-1'' started_step 3 (Some ''boom'') start_world)
     = Inl (LoggingError ''Failed to log audit event: disk full'') \<and>
   status (fst (snd (exhausted audit_down_env ''wf-1'' started_step 3 (Some ''boom'')
                       start_world))) = STEP_FAILED"
proof -
  let ?x = "execute_step audit_down_env (workflow_id fresh_workflow) (steps fresh_workflow ! 0)
              start_world"
  have h: "0 < length (steps fresh_workflow)"
    "all_conditions (conditions (steps fresh_workflow ! 0)) = Inr True"
    "audit_fails audit_down_env (audit_calls (trace start_world)) = Some ''disk full''"
    "audit_fails quiet_env (audit_calls (trace start_world)) = None"
    by (simp_all add: example_defs audit_down_env_def)
  have x: "fst ?x = Inl (LoggingError ''Failed to log audit event: disk full'')"
    by (simp add: execute_step_rejected h(3))
  then have x': "?x = (Inl (LoggingError ''Failed to log audit event: disk full''),
      fst (snd ?x), snd (snd ?x))"
    by (simp add: prod_eq_iff)
  have nm: "name started_step = ''port_scan''" "str_nat 3 = ''3''"
    by (simp_all add: started_step_def example_defs str_nat.simps digit_char_def)
  show ?thesis
    using h x
      audit_failure_propagates [of 0 fresh_workflow audit_down_env start_world "''disk full''"
        "''wf-1''" started_step 3 "Some ''boom''"
        "LoggingError ''Failed to log audit event: disk full''" "fst (snd ?x)" "snd (snd ?x)"]
      audit_failure_propagates [of 0 fresh_workflow quiet_env start_world "''disk full''"
        "''wf-1''" started_step 3 "Some ''boom''"
        "LoggingError ''Failed to log audit event: disk full''" "fst (snd ?x)" "snd (snd ?x)"]
      x'
    by (simp add: nm start_world_def)
qed

text \<open>
  C4 as stated fails for each of the three events. With a sink that rejects
  \<^verbatim>\<open>step_completed\<close>, a tool that succeeds on its first call is invoked three times and
  the step and the workflow end Failed, where a healthy sink gives one invocation and a
  Completed workflow. With a sink that rejects \<^verbatim>\<open>step_started\<close>, the tool is never
  invoked and the step and the workflow end Failed. With a sink that rejects
  \<^verbatim>\<open>step_failed\<close>, the error recorded for a step whose tool always fails is the sink's
  message instead of the report of the attempts.
\<close>

theorem audit_failure_contained_counterexample:
  "tool_calls (trace (snd (snd (execute quiet_env fresh_workflow start_world)))) = 1 \<and>
   status (steps (fst (snd (execute quiet_env fresh_workflow start_world))) ! 0) = STEP_COMPLETED \<and>
   wf_status (fst (snd (execute quiet_env fresh_workflow start_world))) = COMPLETED \<and>
   tool_calls (trace (snd (snd (execute audit_broken_env fresh_workflow start_world)))) = 3 \<and>
   status (steps (fst (snd (execute audit_broken_env fresh_workflow start_world))) ! 0) = STEP_FAILED \<and>
   wf_status (fst (snd (execute audit_broken_env fresh_workflow start_world))) = FAILED \<and>
   tool_calls (trace (snd (snd (execute started_broken_env fresh_workflow start_world)))) = 0 \<and>
   status (steps (fst (snd (execute started_broken_env fresh_workflow start_world))) ! 0)
     = STEP_FAILED \<and>
   wf_status (fst (snd (execute started_broken_env fresh_workflow start_world))) = FAILED \<and>
   error (steps (fst (snd (execute quiet_env flaky_workflow start_world))) ! 0)
     = Some ''Step port_scan failed after 3 attempts: '' \<and>
   error (steps (fst (snd (execute audit_broken_env flaky_workflow start_world))) ! 0)
     = Some ''Failed to log audit event: disk full''"
  by (simp add: run_defs example_defs audit_broken_env_def started_broken_env_def
        flaky_workflow_def flaky_step_def)

text \<open>
  C3 on the code. \<^verbatim>\<open>resume\<close> sets the status to Running and emits
  \<^verbatim>\<open>workflow_resumed\<close>, then calls \<^verbatim>\<open>execute\<close>, whose loop starts at index 0: on a
  Paused workflow with \<open>current_step = 1\<close> and a Completed first step, the first step's
  tool is invoked again, \<^verbatim>\<open>step_started\<close> and \<^verbatim>\<open>step_completed\<close> are emitted for it
  again, and its entry in \<open>results\<close> is overwritten.
\<close>

theorem resume_restarts_from_first_step:
  "wf_status paused_workflow = PAUSED \<and> current_step paused_workflow = 1 \<and>
   status (steps paused_workflow ! 0) = STEP_COMPLETED \<and>
   results paused_workflow ''whois'' = Some [(''registrar'', ''example'')] \<and>
   filter is_tool (trace (snd (snd (resume quiet_env paused_workflow start_world))))
     = [ToolExecute ''whois'' [], ToolExecute ''port_scan'' []] \<and>
   filter is_audit (trace (snd (snd (resume quiet_env paused_workflow start_world))))
     = [AuditEvent ''wf-5'' ''workflow_resumed''
          [(''name'', DStr ''assessment''), (''step'', DInt 1)],
        AuditEvent ''wf-5'' ''workflow_started''
          [(''name'', DStr ''assessment''), (''description'', DStr ''two steps''),
           (''security_level'', DStr ''high'')],
        AuditEvent ''wf-5'' ''step_started''
          [(''step_name'', DStr ''whois''), (''params'', DDict [])],
        AuditEvent ''wf-5'' ''step_completed''
          [(''step_name'', DStr ''whois''), (''duration'', DInt 0)],
        AuditEvent ''wf-5'' ''step_started''
          [(''step_name'', DStr ''port_scan''), (''params'', DDict [])],
        AuditEvent ''wf-5'' ''step_completed''
          [(''step_name'', DStr ''port_scan''), (''duration'', DInt 0)],
        AuditEvent ''wf-5'' ''workflow_completed''
          [(''name'', DStr ''assessment''), (''duration'', DInt 0),
           (''steps_completed'', DInt 2)]] \<and>
   results (fst (snd (resume quiet_env paused_workflow start_world))) ''whois''
     = Some [(''open_ports'', ''22,80'')]"
  by (simp add: resume_def run_defs example_defs paused_workflow_def upt_rec)







end
